theory Spec2Isabelle
  imports Complex_Main
begin

section \<open>Sprint planning MILP: the model builder of solver/solve\_sprint.py\<close>

text \<open>
  The script reads people, stories, roles and a configuration, derives the hour
  requirements and the role capacities, builds a PuLP problem, hands it to CBC and
  writes three views and a summary. It is embedded here as it is written: the
  module-level names keep their names and become functions of the loaded input,
  dictionaries are maps, a subscript \<open>d[k]\<close> is \<open>getitem\<close> and raises
  \<open>KeyError\<close> on a missing key, and every comprehension or loop whose body
  can raise runs in the error sum \<open>py_error + 'a\<close>.

  Two idealisations are made throughout. Python floats are read as real numbers
  (no rounding error, no infinities, no NaN), and the CSV and YAML readers with
  their \<open>int(...)\<close> and \<open>float(...)\<close> conversions are outside the
  model: the input is the typed content of the four files.
\<close>

subsection \<open>Python values: errors, dictionaries, loops\<close>

datatype py_error = KeyError | TypeError | ZeroDivisionError

fun raise_bind :: "py_error + 'a \<Rightarrow> ('a \<Rightarrow> py_error + 'b) \<Rightarrow> py_error + 'b" where
  "raise_bind (Inl e) f = Inl e"
| "raise_bind (Inr x) f = f x"

text \<open>A comprehension \<open>[f(k) for k in ks]\<close> whose body can raise.\<close>

fun comprehension :: "('a \<Rightarrow> py_error + 'b) \<Rightarrow> 'a list \<Rightarrow> py_error + 'b list" where
  "comprehension f [] = Inr []"
| "comprehension f (k # ks) =
     raise_bind (f k) (\<lambda>y. raise_bind (comprehension f ks) (\<lambda>ys. Inr (y # ys)))"

text \<open>A \<open>for\<close> loop that updates a state and can raise.\<close>

fun for_loop :: "('s \<Rightarrow> 'a \<Rightarrow> py_error + 's) \<Rightarrow> 's \<Rightarrow> 'a list \<Rightarrow> py_error + 's" where
  "for_loop body st [] = Inr st"
| "for_loop body st (k # ks) = raise_bind (body st k) (\<lambda>st'. for_loop body st' ks)"

text \<open>A dict built from key/value pairs in order: a later pair overwrites an earlier one.\<close>

definition dict_of :: "('k \<times> 'v) list \<Rightarrow> ('k \<rightharpoonup> 'v)" where
  "dict_of kvs = map_of (rev kvs)"

definition getitem :: "('k \<rightharpoonup> 'v) \<Rightarrow> 'k \<Rightarrow> py_error + 'v" where
  "getitem d k = (case d k of None \<Rightarrow> Inl KeyError | Some v \<Rightarrow> Inr v)"

definition dict_get :: "('k \<rightharpoonup> 'v) \<Rightarrow> 'k \<Rightarrow> 'v \<Rightarrow> 'v" where
  "dict_get d k dflt = (case d k of None \<Rightarrow> dflt | Some v \<Rightarrow> v)"

text \<open>
  Subscripting a \<open>defaultdict(list)\<close>: a missing key is inserted with an empty
  list, so the read changes the dictionary.
\<close>

definition defaultdict_getitem :: "('k \<rightharpoonup> 'v list) \<Rightarrow> 'k \<Rightarrow> 'v list \<times> ('k \<rightharpoonup> 'v list)" where
  "defaultdict_getitem d k = (case d k of None \<Rightarrow> ([], d(k \<mapsto> [])) | Some l \<Rightarrow> (l, d))"

text \<open>
  \<open>str.strip()\<close>. A \<open>char\<close> is read as a code point below 256; the white
  space among them is tab, line feed, vertical tab, form feed, carriage return, the
  four separators 28 to 31, space, next line (133) and no-break space (160).
\<close>

definition isspace :: "char \<Rightarrow> bool" where
  "isspace c =
     (let n = (of_char c :: nat)
      in (9 \<le> n \<and> n \<le> 13) \<or> (28 \<le> n \<and> n \<le> 32) \<or> n = 133 \<or> n = 160)"

definition strip :: "string \<Rightarrow> string" where
  "strip s = rev (dropWhile isspace (rev (dropWhile isspace s)))"

subsection \<open>The loaded data\<close>

record person_row =
  p_person :: string
  p_role :: string
  p_capacity_hours :: real

record story_row =
  s_story_id :: string
  s_points :: int
  s_value :: real
  s_depends_on :: "string option"

record role_row =
  r_role :: string
  r_share_of_hours :: real
  r_meeting_load_per_story_hours :: real
  r_bug_hours_per_bug :: real

record config =
  cfg_hours_per_point :: real
  cfg_bugs_per_sprint :: int
  cfg_max_points_per_dev :: int
  cfg_lambda_people_penalty :: real
  cfg_require_release_for_roles :: "string list"
  cfg_min_hours_to_count_release :: real
  cfg_qa_coverage_factor :: real
  cfg_wip_factor_QA_capacity :: real
  cfg_forbid_points :: "int list option"

record input =
  people_rows :: "person_row list"
  story_rows :: "story_row list"
  role_rows :: "role_row list"
  CFG :: config

definition hours_per_point :: "input \<Rightarrow> real" where
  "hours_per_point inp = cfg_hours_per_point (CFG inp)"

definition bugs_per_sprint :: "input \<Rightarrow> int" where
  "bugs_per_sprint inp = cfg_bugs_per_sprint (CFG inp)"

definition max_points_per_dev :: "input \<Rightarrow> int" where
  "max_points_per_dev inp = cfg_max_points_per_dev (CFG inp)"

definition lambda_people :: "input \<Rightarrow> real" where
  "lambda_people inp = cfg_lambda_people_penalty (CFG inp)"

definition require_release_roles :: "input \<Rightarrow> string set" where
  "require_release_roles inp = set (cfg_require_release_for_roles (CFG inp))"

definition theta_release_hours :: "input \<Rightarrow> real" where
  "theta_release_hours inp = cfg_min_hours_to_count_release (CFG inp)"

definition qa_cov_factor :: "input \<Rightarrow> real" where
  "qa_cov_factor inp = cfg_qa_coverage_factor (CFG inp)"

definition wip_factor_QA :: "input \<Rightarrow> real" where
  "wip_factor_QA inp = cfg_wip_factor_QA_capacity (CFG inp)"

text \<open>\<open>CFG.get("forbid_points", [])\<close>: an absent key is the empty list.\<close>

definition forbid_points :: "input \<Rightarrow> int set" where
  "forbid_points inp = set (case cfg_forbid_points (CFG inp) of None \<Rightarrow> [] | Some xs \<Rightarrow> xs)"

definition I :: "input \<Rightarrow> string list" where
  "I inp = map p_person (people_rows inp)"

definition role_of :: "input \<Rightarrow> (string \<rightharpoonup> string)" where
  "role_of inp = dict_of (map (\<lambda>p. (p_person p, p_role p)) (people_rows inp))"

definition cap_i :: "input \<Rightarrow> (string \<rightharpoonup> real)" where
  "cap_i inp = dict_of (map (\<lambda>p. (p_person p, p_capacity_hours p)) (people_rows inp))"

text \<open>The loop of lines 52-53: \<open>I_by_role[role_of[i]].append(i)\<close>.\<close>

definition I_by_role_append :: "input \<Rightarrow> (string \<rightharpoonup> string list) \<Rightarrow> string \<Rightarrow> py_error + (string \<rightharpoonup> string list)" where
  "I_by_role_append inp d i =
     raise_bind (getitem (role_of inp) i)
       (\<lambda>r. case defaultdict_getitem d r of (l, d') \<Rightarrow> Inr (d'(r \<mapsto> l @ [i])))"

definition I_by_role_loop :: "input \<Rightarrow> py_error + (string \<rightharpoonup> string list)" where
  "I_by_role_loop inp = for_loop (I_by_role_append inp) Map.empty (I inp)"

definition eligible :: "input \<Rightarrow> story_row \<Rightarrow> bool" where
  "eligible inp s = (s_points s \<notin> forbid_points inp)"

definition S_all :: "input \<Rightarrow> string list" where
  "S_all inp = map s_story_id (story_rows inp)"

definition S :: "input \<Rightarrow> string list" where
  "S inp = map s_story_id (filter (eligible inp) (story_rows inp))"

definition points :: "input \<Rightarrow> (string \<rightharpoonup> int)" where
  "points inp = dict_of (map (\<lambda>s. (s_story_id s, s_points s)) (filter (eligible inp) (story_rows inp)))"

definition value_of :: "input \<Rightarrow> (string \<rightharpoonup> real)" where
  "value_of inp = dict_of (map (\<lambda>s. (s_story_id s, s_value s)) (filter (eligible inp) (story_rows inp)))"

text \<open>
  Lines 60-67: a forbidden row is skipped; \<open>(s.get("depends_on") or "").strip()\<close>
  is the predecessor, recorded when it is not empty.
\<close>

definition deps_of_row :: "input \<Rightarrow> story_row \<Rightarrow> (string \<times> string) list" where
  "deps_of_row inp s =
     (if s_points s \<in> forbid_points inp then []
      else (let dep = strip (case s_depends_on s of None \<Rightarrow> [] | Some t \<Rightarrow> t)
            in if dep \<noteq> [] then [(s_story_id s, dep)] else []))"

definition deps :: "input \<Rightarrow> (string \<times> string) list" where
  "deps inp = concat (map (deps_of_row inp) (story_rows inp))"

definition R :: "input \<Rightarrow> string list" where
  "R inp = map r_role (role_rows inp)"

definition role_share :: "input \<Rightarrow> (string \<rightharpoonup> real)" where
  "role_share inp = dict_of (map (\<lambda>r. (r_role r, r_share_of_hours r)) (role_rows inp))"

definition mtg_per_story :: "input \<Rightarrow> (string \<rightharpoonup> real)" where
  "mtg_per_story inp = dict_of (map (\<lambda>r. (r_role r, r_meeting_load_per_story_hours r)) (role_rows inp))"

definition bug_hours_per_bug :: "input \<Rightarrow> (string \<rightharpoonup> real)" where
  "bug_hours_per_bug inp = dict_of (map (\<lambda>r. (r_role r, r_bug_hours_per_bug r)) (role_rows inp))"

subsection \<open>Required hours and role capacities (lines 74-94)\<close>

definition hrs_tot_dict :: "input \<Rightarrow> py_error + (string \<rightharpoonup> real)" where
  "hrs_tot_dict inp =
     raise_bind
       (comprehension
          (\<lambda>s. raise_bind (getitem (points inp) s) (\<lambda>p. Inr (s, of_int p * hours_per_point inp)))
          (S inp))
       (\<lambda>kvs. Inr (dict_of kvs))"

text \<open>
  One of the five comprehensions of lines 76-80, for the role \<open>r\<close>:
  \<open>role_share.get(r, 0.0) * hrs_tot[s]\<close>, for QA times \<open>qa_cov_factor\<close>.
\<close>

definition req_of_role :: "input \<Rightarrow> (string \<rightharpoonup> real) \<Rightarrow> string \<Rightarrow> py_error + ((string \<times> string) \<rightharpoonup> real)" where
  "req_of_role inp ht r =
     raise_bind
       (comprehension
          (\<lambda>s. raise_bind (getitem ht s)
             (\<lambda>h. Inr ((s, r),
                if r = ''QA'' then dict_get (role_share inp) r 0 * h * qa_cov_factor inp
                else dict_get (role_share inp) r 0 * h)))
          (S inp))
       (\<lambda>kvs. Inr (dict_of kvs))"

definition req_init :: "input \<Rightarrow> (string \<rightharpoonup> real) \<Rightarrow> py_error + ((string \<times> string) \<rightharpoonup> real)" where
  "req_init inp ht =
     raise_bind (req_of_role inp ht ''BE'') (\<lambda>be.
     raise_bind (req_of_role inp ht ''FE'') (\<lambda>fe.
     raise_bind (req_of_role inp ht ''QA'') (\<lambda>qa.
     raise_bind (req_of_role inp ht ''TL'') (\<lambda>tl.
     raise_bind (req_of_role inp ht ''ARQ'') (\<lambda>arq.
     Inr (be ++ fe ++ qa ++ tl ++ arq))))))"

text \<open>Lines 83-87, the body of the two nested loops, at the pair \<open>(s, r)\<close>.\<close>

definition add_meeting_load :: "input \<Rightarrow> ((string \<times> string) \<rightharpoonup> real) \<Rightarrow> string \<times> string \<Rightarrow> py_error + ((string \<times> string) \<rightharpoonup> real)" where
  "add_meeting_load inp rq sr =
     (let extra = dict_get (mtg_per_story inp) (snd sr) 0
      in if extra > 0 then raise_bind (getitem rq sr) (\<lambda>h. Inr (rq(sr \<mapsto> h + extra)))
         else Inr rq)"

definition meeting_loop :: "input \<Rightarrow> ((string \<times> string) \<rightharpoonup> real) \<Rightarrow> py_error + ((string \<times> string) \<rightharpoonup> real)" where
  "meeting_loop inp rq = for_loop (add_meeting_load inp) rq (List.product (S inp) [''QA'', ''TL''])"

text \<open>
  Line 90: for each role of \<open>R\<close> the capacities of \<open>I_by_role[r]\<close> are summed.
  The subscript is on the defaultdict, so every role of \<open>R\<close> becomes a key of
  \<open>I_by_role\<close>; the state of the loop is the pairs so far and that dictionary.
\<close>

definition role_cap_step :: "input \<Rightarrow> (string \<times> real) list \<times> (string \<rightharpoonup> string list) \<Rightarrow> string \<Rightarrow> py_error + ((string \<times> real) list \<times> (string \<rightharpoonup> string list))" where
  "role_cap_step inp st r =
     (case defaultdict_getitem (snd st) r of (l, d') \<Rightarrow>
        raise_bind (comprehension (getitem (cap_i inp)) l)
          (\<lambda>cs. Inr (fst st @ [(r, sum_list cs)], d')))"

definition role_cap_loop :: "input \<Rightarrow> (string \<rightharpoonup> string list) \<Rightarrow> py_error + ((string \<rightharpoonup> real) \<times> (string \<rightharpoonup> string list))" where
  "role_cap_loop inp ibr =
     raise_bind (for_loop (role_cap_step inp) ([], ibr) (R inp))
       (\<lambda>st. Inr (dict_of (fst st), snd st))"

definition role_bug_reserve_dict :: "input \<Rightarrow> (string \<rightharpoonup> real)" where
  "role_bug_reserve_dict inp =
     dict_of (map (\<lambda>r. (r, of_int (bugs_per_sprint inp) * dict_get (bug_hours_per_bug inp) r 0)) (R inp))"

definition role_cap_eff_dict :: "input \<Rightarrow> (string \<rightharpoonup> real) \<Rightarrow> (string \<rightharpoonup> real) \<Rightarrow> (string \<rightharpoonup> real)" where
  "role_cap_eff_dict inp rc rbr =
     (let rce = dict_of (map (\<lambda>r. (r, dict_get rc r 0 - dict_get rbr r 0)) (R inp))
      in rce(''QA'' \<mapsto> min (dict_get rce ''QA'' 0) (dict_get rc ''QA'' 0 * wip_factor_QA inp)))"

record derived =
  I_by_role :: "string \<rightharpoonup> string list"
  hrs_tot :: "string \<rightharpoonup> real"
  req :: "(string \<times> string) \<rightharpoonup> real"
  role_cap :: "string \<rightharpoonup> real"
  role_bug_reserve :: "string \<rightharpoonup> real"
  role_cap_eff :: "string \<rightharpoonup> real"

definition derive :: "input \<Rightarrow> py_error + derived" where
  "derive inp =
     raise_bind (I_by_role_loop inp) (\<lambda>ibr0.
     raise_bind (hrs_tot_dict inp) (\<lambda>ht.
     raise_bind (req_init inp ht) (\<lambda>rq0.
     raise_bind (meeting_loop inp rq0) (\<lambda>rq.
     raise_bind (role_cap_loop inp ibr0) (\<lambda>rci.
     Inr \<lparr> I_by_role = snd rci, hrs_tot = ht, req = rq, role_cap = fst rci,
           role_bug_reserve = role_bug_reserve_dict inp,
           role_cap_eff = role_cap_eff_dict inp (fst rci) (role_bug_reserve_dict inp) \<rparr>)))))"


subsection \<open>The PuLP problem: variables, expressions, constraints\<close>

text \<open>
  PuLP is not part of the repository. It is modelled by what it stands for: a
  variable with its bounds and category, an affine expression as its list of
  terms and its constant, a constraint as two expressions and a sense, and a
  problem as an objective and the named constraints in the order they are added.
  An expression keeps one term for each occurrence of a variable (PuLP adds the
  coefficients up, which gives the same value), and a constraint keeps both
  sides (PuLP moves everything to the left). PuLP refuses a constraint whose name
  is already taken; that check is not modelled, so a problem PuLP accepts has
  exactly the constraints listed here.
\<close>

datatype var = X string string | Z string | Y string | Owner string string | Rel string

datatype category = LpContinuous | LpBinary

record LpVariable =
  var_id :: var
  lowBound :: "real option"
  upBound :: "real option"
  cat :: category

definition LpVariable_dicts :: "('k \<Rightarrow> var) \<Rightarrow> 'k list \<Rightarrow> real option \<Rightarrow> real option \<Rightarrow> category \<Rightarrow> ('k \<rightharpoonup> LpVariable)" where
  "LpVariable_dicts name indices lb ub c =
     dict_of (map (\<lambda>k. (k, \<lparr> var_id = name k, lowBound = lb, upBound = ub, cat = c \<rparr>)) indices)"

datatype LpAffineExpression = LpAffineExpression (expr_terms: "(LpVariable \<times> real) list") (expr_constant: real)

definition expr_of_var :: "LpVariable \<Rightarrow> LpAffineExpression" where
  "expr_of_var lv = LpAffineExpression [(lv, 1)] 0"

definition expr_of_const :: "real \<Rightarrow> LpAffineExpression" where
  "expr_of_const c = LpAffineExpression [] c"

text \<open>
  A number times an expression. PuLP copies the terms and the constant only for a
  factor other than 0: the product with 0 is the empty expression.
\<close>

definition expr_scale :: "real \<Rightarrow> LpAffineExpression \<Rightarrow> LpAffineExpression" where
  "expr_scale c e =
     (if c \<noteq> 0
      then LpAffineExpression (map (\<lambda>t. (fst t, c * snd t)) (expr_terms e)) (c * expr_constant e)
      else LpAffineExpression [] 0)"

definition expr_sub :: "LpAffineExpression \<Rightarrow> LpAffineExpression \<Rightarrow> LpAffineExpression" where
  "expr_sub a b = LpAffineExpression (expr_terms a @ expr_terms (expr_scale (- 1) b)) (expr_constant a - expr_constant b)"

definition lpSum :: "LpAffineExpression list \<Rightarrow> LpAffineExpression" where
  "lpSum es = LpAffineExpression (concat (map expr_terms es)) (sum_list (map expr_constant es))"

datatype sense = LpConstraintLE | LpConstraintGE | LpConstraintEQ

datatype LpConstraint = LpConstraint LpAffineExpression sense LpAffineExpression

record LpProblem =
  objective :: LpAffineExpression
  constraints :: "(string \<times> LpConstraint) list"

text \<open>What a problem means: the value of an expression, and a feasible assignment.\<close>

definition expr_value :: "(var \<Rightarrow> real) \<Rightarrow> LpAffineExpression \<Rightarrow> real" where
  "expr_value v e = sum_list (map (\<lambda>t. snd t * v (var_id (fst t))) (expr_terms e)) + expr_constant e"

fun holds :: "(var \<Rightarrow> real) \<Rightarrow> LpConstraint \<Rightarrow> bool" where
  "holds v (LpConstraint l LpConstraintLE r) = (expr_value v l \<le> expr_value v r)"
| "holds v (LpConstraint l LpConstraintGE r) = (expr_value v l \<ge> expr_value v r)"
| "holds v (LpConstraint l LpConstraintEQ r) = (expr_value v l = expr_value v r)"

definition in_domain :: "LpVariable \<Rightarrow> real \<Rightarrow> bool" where
  "in_domain lv a =
     ((case lowBound lv of None \<Rightarrow> True | Some l \<Rightarrow> l \<le> a) \<and>
      (case upBound lv of None \<Rightarrow> True | Some u \<Rightarrow> a \<le> u) \<and>
      (case cat lv of LpContinuous \<Rightarrow> True | LpBinary \<Rightarrow> a = 0 \<or> a = 1))"

fun constraint_variables :: "LpConstraint \<Rightarrow> LpVariable list" where
  "constraint_variables (LpConstraint l sn r) = map fst (expr_terms l) @ map fst (expr_terms r)"

text \<open>The variables of a problem are those of its objective and its constraints.\<close>

definition variables :: "LpProblem \<Rightarrow> LpVariable list" where
  "variables m =
     map fst (expr_terms (objective m)) @ concat (map (\<lambda>nc. constraint_variables (snd nc)) (constraints m))"

definition feasible :: "(var \<Rightarrow> real) \<Rightarrow> LpProblem \<Rightarrow> bool" where
  "feasible v m =
     (list_all (\<lambda>lv. in_domain lv (v (var_id lv))) (variables m) \<and>
      list_all (\<lambda>nc. holds v (snd nc)) (constraints m))"

subsection \<open>The model (lines 96-145)\<close>

text \<open>
  The five dictionaries of variables are the script's \<open>x\<close>, \<open>z\<close>, \<open>y\<close>,
  \<open>owner\<close> and \<open>rel\<close>.
\<close>

definition x_dict :: "input \<Rightarrow> ((string \<times> string) \<rightharpoonup> LpVariable)" where
  "x_dict inp = LpVariable_dicts (\<lambda>k. X (fst k) (snd k)) (List.product (I inp) (S inp)) (Some 0) None LpContinuous"

definition z_dict :: "input \<Rightarrow> (string \<rightharpoonup> LpVariable)" where
  "z_dict inp = LpVariable_dicts Z (S inp) (Some 0) (Some 1) LpBinary"

definition y_dict :: "input \<Rightarrow> (string \<rightharpoonup> LpVariable)" where
  "y_dict inp = LpVariable_dicts Y (I inp) (Some 0) (Some 1) LpBinary"

definition owner_dict :: "input \<Rightarrow> ((string \<times> string) \<rightharpoonup> LpVariable)" where
  "owner_dict inp = LpVariable_dicts (\<lambda>k. Owner (fst k) (snd k)) (List.product (I inp) (S inp)) (Some 0) (Some 1) LpBinary"

definition rel_dict :: "input \<Rightarrow> (string \<rightharpoonup> LpVariable)" where
  "rel_dict inp = LpVariable_dicts Rel (I inp) (Some 0) (Some 1) LpBinary"

text \<open>A subscript on a dictionary of variables, as an expression.\<close>

definition var_at :: "('k \<rightharpoonup> LpVariable) \<Rightarrow> 'k \<Rightarrow> py_error + LpAffineExpression" where
  "var_at d k = raise_bind (getitem d k) (\<lambda>lv. Inr (expr_of_var lv))"

definition objective_expr :: "input \<Rightarrow> py_error + LpAffineExpression" where
  "objective_expr inp =
     raise_bind (comprehension
        (\<lambda>s. raise_bind (getitem (value_of inp) s) (\<lambda>v.
              raise_bind (var_at (z_dict inp) s) (\<lambda>zs. Inr (expr_scale v zs))))
        (S inp)) (\<lambda>vs.
     raise_bind (comprehension (var_at (y_dict inp)) (I inp)) (\<lambda>ys.
     Inr (expr_sub (lpSum vs) (expr_scale (lambda_people inp) (lpSum ys)))))"

definition Cap_constraint :: "input \<Rightarrow> string \<Rightarrow> py_error + (string \<times> LpConstraint)" where
  "Cap_constraint inp i =
     raise_bind (comprehension (\<lambda>s. var_at (x_dict inp) (i, s)) (S inp)) (\<lambda>xs.
     raise_bind (getitem (cap_i inp) i) (\<lambda>c.
     raise_bind (var_at (y_dict inp) i) (\<lambda>yi.
     Inr (''Cap_'' @ i, LpConstraint (lpSum xs) LpConstraintLE (expr_scale c yi)))))"

text \<open>The tuple \<open>("BE","FE","QA","TL","ARQ")\<close> of lines 115 and 120.\<close>

definition fixed_roles :: "string list" where
  "fixed_roles = [''BE'', ''FE'', ''QA'', ''TL'', ''ARQ'']"

text \<open>
  Lines 116-117 at the pair \<open>(s, r)\<close>: nothing is added when \<open>r\<close> is not a key
  of \<open>I_by_role\<close>.
\<close>

definition Req_constraint :: "input \<Rightarrow> derived \<Rightarrow> string \<times> string \<Rightarrow> py_error + (string \<times> LpConstraint) list" where
  "Req_constraint inp d sr =
     (case I_by_role d (snd sr) of
        None \<Rightarrow> Inr []
      | Some l \<Rightarrow>
          raise_bind (comprehension (\<lambda>i. var_at (x_dict inp) (i, fst sr)) l) (\<lambda>xs.
          raise_bind (getitem (req d) sr) (\<lambda>q.
          raise_bind (var_at (z_dict inp) (fst sr)) (\<lambda>zs.
          Inr [(''Req_'' @ snd sr @ ''_'' @ fst sr,
                LpConstraint (lpSum xs) LpConstraintGE (expr_scale q zs))]))))"

definition RoleCap_constraint :: "input \<Rightarrow> derived \<Rightarrow> string \<Rightarrow> py_error + (string \<times> LpConstraint) list" where
  "RoleCap_constraint inp d r =
     (case I_by_role d r of
        None \<Rightarrow> Inr []
      | Some l \<Rightarrow>
          raise_bind (comprehension (\<lambda>si. var_at (x_dict inp) (snd si, fst si)) (List.product (S inp) l)) (\<lambda>xs.
          raise_bind (getitem (role_cap_eff d) r) (\<lambda>c.
          Inr [(''RoleCap_'' @ r, LpConstraint (lpSum xs) LpConstraintLE (expr_of_const c))])))"

definition devs_list :: "input \<Rightarrow> py_error + string list" where
  "devs_list inp =
     raise_bind (comprehension
        (\<lambda>i. raise_bind (getitem (role_of inp) i) (\<lambda>r. Inr (if r \<in> set [''BE'', ''FE''] then [i] else [])))
        (I inp))
       (\<lambda>ls. Inr (concat ls))"

definition OwnerHours_constraint :: "input \<Rightarrow> string \<Rightarrow> string \<Rightarrow> py_error + (string \<times> LpConstraint)" where
  "OwnerHours_constraint inp s i =
     raise_bind (var_at (x_dict inp) (i, s)) (\<lambda>xv.
     raise_bind (var_at (owner_dict inp) (i, s)) (\<lambda>ov.
     Inr (''OwnerHours_'' @ i @ ''_'' @ s,
          LpConstraint (lpSum [xv]) LpConstraintGE (expr_scale (theta_release_hours inp) ov))))"

definition Owner_constraints :: "input \<Rightarrow> string list \<Rightarrow> string \<Rightarrow> py_error + (string \<times> LpConstraint) list" where
  "Owner_constraints inp dv s =
     raise_bind (comprehension (\<lambda>i. var_at (owner_dict inp) (i, s)) dv) (\<lambda>os.
     raise_bind (var_at (z_dict inp) s) (\<lambda>zs.
     raise_bind (comprehension (OwnerHours_constraint inp s) dv) (\<lambda>hs.
     Inr ((''OwnerOne_'' @ s, LpConstraint (lpSum os) LpConstraintEQ zs) # hs))))"

definition PointsCap_constraint :: "input \<Rightarrow> string \<Rightarrow> py_error + (string \<times> LpConstraint)" where
  "PointsCap_constraint inp i =
     raise_bind (comprehension
        (\<lambda>s. raise_bind (getitem (points inp) s) (\<lambda>p.
              raise_bind (var_at (owner_dict inp) (i, s)) (\<lambda>ov. Inr (expr_scale (of_int p) ov))))
        (S inp)) (\<lambda>ps.
     Inr (''PointsCap_'' @ i,
          LpConstraint (lpSum ps) LpConstraintLE (expr_of_const (of_int (max_points_per_dev inp)))))"

definition Rel_constraints :: "input \<Rightarrow> string \<Rightarrow> py_error + (string \<times> LpConstraint) list" where
  "Rel_constraints inp i =
     raise_bind (var_at (rel_dict inp) i) (\<lambda>ri.
     raise_bind (comprehension (\<lambda>s. var_at (owner_dict inp) (i, s)) (S inp)) (\<lambda>os.
     raise_bind (var_at (rel_dict inp) i) (\<lambda>ri'.
     raise_bind (var_at (y_dict inp) i) (\<lambda>yi.
     Inr [(''RelLink_'' @ i, LpConstraint ri LpConstraintLE (lpSum os)),
          (''RelActive_'' @ i, LpConstraint ri' LpConstraintGE yi)]))))"

definition Dep_constraint :: "input \<Rightarrow> string \<times> string \<Rightarrow> py_error + (string \<times> LpConstraint) list" where
  "Dep_constraint inp sp =
     (if snd sp \<in> set (S inp)
      then raise_bind (var_at (z_dict inp) (fst sp)) (\<lambda>zs.
           raise_bind (var_at (z_dict inp) (snd sp)) (\<lambda>zp.
           Inr [(''Dep_'' @ fst sp @ ''_on_'' @ snd sp, LpConstraint zs LpConstraintLE zp)]))
      else Inr [])"

record built =
  x_vars :: "(string \<times> string) \<rightharpoonup> LpVariable"
  z_vars :: "string \<rightharpoonup> LpVariable"
  y_vars :: "string \<rightharpoonup> LpVariable"
  owner_vars :: "(string \<times> string) \<rightharpoonup> LpVariable"
  rel_vars :: "string \<rightharpoonup> LpVariable"
  devs :: "string list"
  problem :: LpProblem

definition build :: "input \<Rightarrow> derived \<Rightarrow> py_error + built" where
  "build inp d =
     raise_bind (objective_expr inp) (\<lambda>obj.
     raise_bind (comprehension (Cap_constraint inp) (I inp)) (\<lambda>caps.
     raise_bind (comprehension (Req_constraint inp d) (List.product (S inp) fixed_roles)) (\<lambda>reqs.
     raise_bind (comprehension (RoleCap_constraint inp d) fixed_roles) (\<lambda>rcs.
     raise_bind (devs_list inp) (\<lambda>dv.
     raise_bind (comprehension (Owner_constraints inp dv) (S inp)) (\<lambda>ows.
     raise_bind (comprehension (PointsCap_constraint inp) dv) (\<lambda>pcs.
     raise_bind (comprehension (Rel_constraints inp) dv) (\<lambda>rls.
     raise_bind (comprehension (Dep_constraint inp) (deps inp)) (\<lambda>dps.
     Inr \<lparr> x_vars = x_dict inp, z_vars = z_dict inp, y_vars = y_dict inp,
           owner_vars = owner_dict inp, rel_vars = rel_dict inp, devs = dv,
           problem = \<lparr> objective = obj,
                       constraints = caps @ concat reqs @ concat rcs @ concat ows @ pcs
                                     @ concat rls @ concat dps \<rparr> \<rparr>)))))))))"


text \<open>Lines 48-145 together: the derived data, then the model.\<close>

definition construct :: "input \<Rightarrow> py_error + built" where
  "construct inp = raise_bind (derive inp) (build inp)"

subsection \<open>The solver's answer and the output views (lines 147-212)\<close>

text \<open>
  The solver is a black box: it leaves a status code on the problem and a value,
  or \<open>None\<close>, on each variable. \<open>pl.value\<close> of a variable reads that value;
  \<open>pl.value\<close> of an expression is \<open>None\<close> as soon as one of its variables
  has none.
\<close>

record solution =
  m_status :: int
  varValue :: "var \<Rightarrow> real option"

definition LpStatus :: "int \<rightharpoonup> string" where
  "LpStatus = dict_of [(0, ''Not Solved''), (1, ''Optimal''), (- 1, ''Infeasible''),
                       (- 2, ''Unbounded''), (- 3, ''Undefined'')]"

definition pl_value :: "solution \<Rightarrow> LpVariable \<Rightarrow> real option" where
  "pl_value sol lv = varValue sol (var_id lv)"

fun affine_value :: "solution \<Rightarrow> (LpVariable \<times> real) list \<Rightarrow> real \<Rightarrow> real option" where
  "affine_value sol [] acc = Some acc"
| "affine_value sol (t # ts) acc =
     (case pl_value sol (fst t) of None \<Rightarrow> None | Some a \<Rightarrow> affine_value sol ts (acc + a * snd t))"

definition pl_value_expr :: "solution \<Rightarrow> LpAffineExpression \<Rightarrow> real option" where
  "pl_value_expr sol e = affine_value sol (expr_terms e) (expr_constant e)"

text \<open>
  \<open>pl.value(m.objective)\<close> after the solve. For an objective without terms
  PuLP adds the variable \<open>__dummy\<close> before it writes the problem and subtracts it
  afterwards, which leaves that term with the coefficient 0; \<open>__dummy\<close> never
  gets a value, so the value of such an objective is \<open>None\<close>.
\<close>

definition pl_value_objective :: "solution \<Rightarrow> LpAffineExpression \<Rightarrow> real option" where
  "pl_value_objective sol e = (if expr_terms e = [] then None else pl_value_expr sol e)"

text \<open>\<open>a > b\<close> where \<open>a\<close> may be \<open>None\<close>: Python 3 raises \<open>TypeError\<close>.\<close>

definition py_gt :: "real option \<Rightarrow> real \<Rightarrow> py_error + bool" where
  "py_gt a b = (case a of None \<Rightarrow> Inl TypeError | Some a' \<Rightarrow> Inr (a' > b))"

definition py_div :: "real \<Rightarrow> real \<Rightarrow> py_error + real" where
  "py_div a b = (if b = 0 then Inl ZeroDivisionError else Inr (a / b))"

text \<open>\<open>a or 0.0\<close> on a number.\<close>

definition or_zero :: "real \<Rightarrow> real" where
  "or_zero a = (if a \<noteq> 0 then a else 0)"

text \<open>\<open>round(a, n)\<close>: to \<open>n\<close> decimals, a tie to the even neighbour.\<close>

definition round_half_even :: "real \<Rightarrow> int" where
  "round_half_even a =
     (let f = \<lfloor>a\<rfloor>; d = a - of_int f
      in if d < 1 / 2 then f else if d > 1 / 2 then f + 1 else if even f then f else f + 1)"

definition py_round :: "real \<Rightarrow> nat \<Rightarrow> real" where
  "py_round a n = of_int (round_half_even (a * 10 ^ n)) / 10 ^ n"

definition int_of_bool :: "bool \<Rightarrow> int" where
  "int_of_bool b = (if b then 1 else 0)"

text \<open>
  The truth value of a variable is that of its rounded value: a variable without a
  value is false, and so is one whose value rounds to 0. A binary variable within
  0.00001 of an integer rounds to that integer. \<open>pl.value(v or 0.0)\<close> is then
  the value of \<open>v\<close> when \<open>v\<close> is true, and 0.0 otherwise.
\<close>

definition roundedValue :: "solution \<Rightarrow> LpVariable \<Rightarrow> real option" where
  "roundedValue sol lv =
     (case pl_value sol lv of
        None \<Rightarrow> None
      | Some a \<Rightarrow>
          if cat lv = LpBinary \<and> \<bar>a - of_int (round_half_even a)\<bar> \<le> 1 / 100000
          then Some (of_int (round_half_even a)) else Some a)"

definition var_bool :: "solution \<Rightarrow> LpVariable \<Rightarrow> bool" where
  "var_bool sol lv = (case roundedValue sol lv of None \<Rightarrow> False | Some a \<Rightarrow> a \<noteq> 0)"

definition value_or_zero :: "solution \<Rightarrow> LpVariable \<Rightarrow> real option" where
  "value_or_zero sol lv = (if var_bool sol lv then pl_value sol lv else Some 0)"

type_synonym sel_row = "string \<times> int \<times> real \<times> string option"
type_synonym assign_row = "string \<times> string \<times> string \<times> real"
type_synonym util_row = "string \<times> string \<times> real \<times> real \<times> real \<times> int \<times> int"

text \<open>Lines 160-164: the first developer whose owner variable exceeds 0.5.\<close>

fun find_owner :: "built \<Rightarrow> solution \<Rightarrow> string \<Rightarrow> string list \<Rightarrow> py_error + string option" where
  "find_owner b sol s [] = Inr None"
| "find_owner b sol s (i # is) =
     raise_bind (getitem (owner_vars b) (i, s)) (\<lambda>ov.
     raise_bind (py_gt (pl_value sol ov) (1 / 2)) (\<lambda>t.
     if t then Inr (Some i) else find_owner b sol s is))"

definition sel_of_story :: "input \<Rightarrow> built \<Rightarrow> solution \<Rightarrow> string \<Rightarrow> py_error + sel_row list" where
  "sel_of_story inp b sol s =
     raise_bind (getitem (z_vars b) s) (\<lambda>zs.
     raise_bind (py_gt (pl_value sol zs) (1 / 2)) (\<lambda>t.
     if t then
       raise_bind (find_owner b sol s (devs b)) (\<lambda>owner_i.
       raise_bind (getitem (points inp) s) (\<lambda>p.
       raise_bind (getitem (value_of inp) s) (\<lambda>v.
       Inr [(s, p, v, owner_i)])))
     else Inr []))"

definition sel :: "input \<Rightarrow> built \<Rightarrow> solution \<Rightarrow> py_error + sel_row list" where
  "sel inp b sol =
     raise_bind (comprehension (sel_of_story inp b sol) (S inp)) (\<lambda>rows. Inr (concat rows))"

text \<open>Lines 176-178: \<open>if hrs and hrs>1e-4\<close> skips a missing value and a zero.\<close>

definition assign_of_pair :: "input \<Rightarrow> built \<Rightarrow> solution \<Rightarrow> string \<times> string \<Rightarrow> py_error + assign_row list" where
  "assign_of_pair inp b sol is =
     raise_bind (getitem (x_vars b) is) (\<lambda>xv.
     case pl_value sol xv of
       None \<Rightarrow> Inr []
     | Some hrs \<Rightarrow>
         if hrs \<noteq> 0 \<and> hrs > 1 / 10000
         then raise_bind (getitem (role_of inp) (fst is)) (\<lambda>r. Inr [(fst is, r, snd is, py_round hrs 2)])
         else Inr [])"

definition assign_rows :: "input \<Rightarrow> built \<Rightarrow> solution \<Rightarrow> py_error + assign_row list" where
  "assign_rows inp b sol =
     raise_bind (comprehension (assign_of_pair inp b sol) (List.product (I inp) (S inp)))
       (\<lambda>rows. Inr (concat rows))"

text \<open>Line 187: \<open>sum(...)\<close> starts at 0 and adds each value; adding \<open>None\<close> raises.\<close>

definition used_add :: "built \<Rightarrow> solution \<Rightarrow> string \<Rightarrow> real \<Rightarrow> string \<Rightarrow> py_error + real" where
  "used_add b sol i acc s =
     raise_bind (getitem (x_vars b) (i, s)) (\<lambda>xv.
     case pl_value sol xv of None \<Rightarrow> Inl TypeError | Some h \<Rightarrow> Inr (acc + h))"

text \<open>
  Line 188, its items evaluated from left to right. The value of \<open>y[i]\<close> is
  compared as it is; that of \<open>rel[i]\<close> goes through \<open>rel[i] or 0.0\<close>, so a
  \<open>rel\<close> variable without a value counts as 0.
\<close>

definition util_of_person :: "input \<Rightarrow> built \<Rightarrow> solution \<Rightarrow> string \<Rightarrow> py_error + util_row" where
  "util_of_person inp b sol i =
     raise_bind (for_loop (used_add b sol i) 0 (S inp)) (\<lambda>used.
     raise_bind (getitem (role_of inp) i) (\<lambda>r.
     raise_bind (getitem (cap_i inp) i) (\<lambda>c.
     raise_bind (getitem (cap_i inp) i) (\<lambda>c'.
     raise_bind (py_div (or_zero used) c') (\<lambda>u.
     raise_bind (getitem (y_vars b) i) (\<lambda>yi.
     raise_bind (py_gt (pl_value sol yi) (1 / 2)) (\<lambda>act.
     raise_bind (getitem (rel_vars b) i) (\<lambda>ri.
     raise_bind (py_gt (value_or_zero sol ri) (1 / 2)) (\<lambda>rl.
     Inr (i, r, py_round (or_zero used) 2, c, py_round u 3, int_of_bool act, int_of_bool rl))))))))))"

definition util :: "input \<Rightarrow> built \<Rightarrow> solution \<Rightarrow> py_error + util_row list" where
  "util inp b sol = comprehension (util_of_person inp b sol) (I inp)"

text \<open>
  The summary, one item for each \<open>f.write\<close>; the numbers are kept as numbers,
  their formatting is not modelled. The lines written before an error stay in
  the file.
\<close>

datatype summary_line =
    Status string
  | Objective real
  | Delivered_value real
  | Active_people nat
  | Stories_selected nat nat
  | Dependencies_respected nat
  | Parameters real real int int real real

definition val_total :: "input \<Rightarrow> built \<Rightarrow> solution \<Rightarrow> py_error + real" where
  "val_total inp b sol =
     raise_bind (comprehension
        (\<lambda>s. raise_bind (getitem (z_vars b) s) (\<lambda>zs.
              raise_bind (py_gt (pl_value sol zs) (1 / 2)) (\<lambda>t.
              if t then raise_bind (getitem (value_of inp) s) (\<lambda>v. Inr [v]) else Inr [])))
        (S inp))
       (\<lambda>vs. Inr (sum_list (concat vs)))"

definition active_people :: "input \<Rightarrow> built \<Rightarrow> solution \<Rightarrow> py_error + nat" where
  "active_people inp b sol =
     raise_bind (comprehension
        (\<lambda>i. raise_bind (getitem (y_vars b) i) (\<lambda>yi.
              raise_bind (py_gt (pl_value sol yi) (1 / 2)) (\<lambda>t. Inr (if t then [1] else []))))
        (I inp))
       (\<lambda>ns. Inr (sum_list (concat ns)))"

definition summary :: "input \<Rightarrow> built \<Rightarrow> solution \<Rightarrow> string \<Rightarrow> real option \<Rightarrow> sel_row list \<Rightarrow> summary_line list \<times> py_error option" where
  "summary inp b sol status obj rows =
     (case obj of
        None \<Rightarrow> ([Status status], Some TypeError)
      | Some ob \<Rightarrow>
         (case val_total inp b sol of
            Inl e \<Rightarrow> ([Status status, Objective ob], Some e)
          | Inr vt \<Rightarrow>
             (case active_people inp b sol of
                Inl e \<Rightarrow> ([Status status, Objective ob], Some e)
              | Inr ap \<Rightarrow>
                 ([Status status, Objective ob, Delivered_value vt, Active_people ap,
                   Stories_selected (length rows) (length (S inp)),
                   Dependencies_respected (length (deps inp)),
                   Parameters (hours_per_point inp) (lambda_people inp) (bugs_per_sprint inp)
                     (max_points_per_dev inp) (qa_cov_factor inp) (wip_factor_QA inp)],
                  None))))"

text \<open>The four files; a file that was not reached is \<open>None\<close>.\<close>

record outputs =
  selected_stories_csv :: "sel_row list option"
  assignments_csv :: "assign_row list option"
  person_utilization_csv :: "util_row list option"
  summary_txt :: "summary_line list option"

definition no_outputs :: outputs where
  "no_outputs = \<lparr> selected_stories_csv = None, assignments_csv = None,
                   person_utilization_csv = None, summary_txt = None \<rparr>"

definition write_outputs :: "input \<Rightarrow> built \<Rightarrow> solution \<Rightarrow> outputs \<times> py_error option" where
  "write_outputs inp b sol =
     (case getitem LpStatus (m_status sol) of
        Inl e \<Rightarrow> (no_outputs, Some e)
      | Inr status \<Rightarrow>
         (let obj = pl_value_objective sol (objective (problem b)) in
          case sel inp b sol of
            Inl e \<Rightarrow> (no_outputs, Some e)
          | Inr rows \<Rightarrow>
             (case assign_rows inp b sol of
                Inl e \<Rightarrow> (no_outputs \<lparr> selected_stories_csv := Some rows \<rparr>, Some e)
              | Inr arows \<Rightarrow>
                 (case util inp b sol of
                    Inl e \<Rightarrow>
                      (no_outputs \<lparr> selected_stories_csv := Some rows, assignments_csv := Some arows \<rparr>,
                       Some e)
                  | Inr urows \<Rightarrow>
                      (case summary inp b sol status obj rows of
                         (ls, err) \<Rightarrow>
                           (\<lparr> selected_stories_csv = Some rows, assignments_csv = Some arows,
                              person_utilization_csv = Some urows, summary_txt = Some ls \<rparr>,
                            err))))))"

text \<open>The whole script, with the solver as a parameter.\<close>

definition run :: "(LpProblem \<Rightarrow> solution) \<Rightarrow> input \<Rightarrow> outputs \<times> py_error option" where
  "run solve inp =
     (case construct inp of
        Inl e \<Rightarrow> (no_outputs, Some e)
      | Inr b \<Rightarrow> write_outputs inp b (solve (problem b)))"

subsection \<open>Notions used in the statements and proofs\<close>

text \<open>The people of a role, in the order of \<open>I\<close>, and the content of a defaultdict entry.\<close>

definition in_role :: "input \<Rightarrow> string \<Rightarrow> string list" where
  "in_role inp r = filter (\<lambda>i. role_of inp i = Some r) (I inp)"

definition members :: "('k \<rightharpoonup> 'v list) \<Rightarrow> 'k \<Rightarrow> 'v list" where
  "members d k = (case d k of None \<Rightarrow> [] | Some l \<Rightarrow> l)"

definition raw_cap :: "input \<Rightarrow> string \<Rightarrow> real" where
  "raw_cap inp r = sum_list (map (\<lambda>i. the (cap_i inp i)) (in_role inp r))"

text \<open>The value of lines 76-80 at a story and a role, and the meeting load that line 87 adds.\<close>

definition req_base :: "input \<Rightarrow> string \<Rightarrow> string \<Rightarrow> real" where
  "req_base inp s r =
     (if r = ''QA''
      then dict_get (role_share inp) r 0 * (of_int (the (points inp s)) * hours_per_point inp) * qa_cov_factor inp
      else dict_get (role_share inp) r 0 * (of_int (the (points inp s)) * hours_per_point inp))"

definition extra_of :: "input \<Rightarrow> string \<Rightarrow> real" where
  "extra_of inp r =
     (if dict_get (mtg_per_story inp) r 0 > 0 then dict_get (mtg_per_story inp) r 0 else 0)"

text \<open>The variables that \<open>LpVariable.dicts\<close> makes, and the story a variable is about.\<close>

definition binary_var :: "var \<Rightarrow> LpVariable" where
  "binary_var w = \<lparr> var_id = w, lowBound = Some 0, upBound = Some 1, cat = LpBinary \<rparr>"

definition continuous_var :: "var \<Rightarrow> LpVariable" where
  "continuous_var w = \<lparr> var_id = w, lowBound = Some 0, upBound = None, cat = LpContinuous \<rparr>"

fun story_of :: "var \<Rightarrow> string option" where
  "story_of (X i s) = Some s"
| "story_of (Z s) = Some s"
| "story_of (Y i) = None"
| "story_of (Owner i s) = Some s"
| "story_of (Rel i) = None"

text \<open>
  The variables a problem built from \<open>inp\<close> with the developers \<open>dv\<close> can
  mention.
\<close>

definition model_var :: "input \<Rightarrow> string list \<Rightarrow> LpVariable \<Rightarrow> bool" where
  "model_var inp dv lv =
     ((\<exists>i s. i \<in> set (I inp) \<and> s \<in> set (S inp) \<and> lv = continuous_var (X i s)) \<or>
      (\<exists>s. s \<in> set (S inp) \<and> lv = binary_var (Z s)) \<or>
      (\<exists>i. i \<in> set (I inp) \<and> lv = binary_var (Y i)) \<or>
      (\<exists>i s. i \<in> set dv \<and> s \<in> set (S inp) \<and> lv = binary_var (Owner i s)) \<or>
      (\<exists>i. i \<in> set dv \<and> lv = binary_var (Rel i)))"

definition expr_vars :: "LpAffineExpression \<Rightarrow> LpVariable set" where
  "expr_vars e = fst ` set (expr_terms e)"

text \<open>The input with another \<open>require_release_for_roles\<close>.\<close>

definition with_release_roles :: "string list \<Rightarrow> input \<Rightarrow> input" where
  "with_release_roles rr inp = inp \<lparr> CFG := (CFG inp) \<lparr> cfg_require_release_for_roles := rr \<rparr> \<rparr>"

subsection \<open>A sprint used as the running example\<close>

text \<open>
  Three people, four stories of which \<open>s3\<close> has the forbidden 13 points,
  \<open>s2\<close> depends on \<open>s1\<close> and \<open>s4\<close> on the forbidden \<open>s3\<close>.
\<close>

definition example_input :: input where
  "example_input = \<lparr>
     people_rows = [\<lparr> p_person = ''ana'', p_role = ''BE'', p_capacity_hours = 10 \<rparr>,
                    \<lparr> p_person = ''bob'', p_role = ''FE'', p_capacity_hours = 10 \<rparr>,
                    \<lparr> p_person = ''cai'', p_role = ''QA'', p_capacity_hours = 10 \<rparr>],
     story_rows = [\<lparr> s_story_id = ''s1'', s_points = 2, s_value = 10, s_depends_on = None \<rparr>,
                   \<lparr> s_story_id = ''s2'', s_points = 4, s_value = 8, s_depends_on = Some ''s1'' \<rparr>,
                   \<lparr> s_story_id = ''s3'', s_points = 13, s_value = 20, s_depends_on = Some [] \<rparr>,
                   \<lparr> s_story_id = ''s4'', s_points = 1, s_value = 1, s_depends_on = Some '' s3 '' \<rparr>],
     role_rows = [\<lparr> r_role = ''BE'', r_share_of_hours = 1 / 2, r_meeting_load_per_story_hours = 0,
                     r_bug_hours_per_bug = 1 \<rparr>,
                  \<lparr> r_role = ''FE'', r_share_of_hours = 1 / 4, r_meeting_load_per_story_hours = 0,
                     r_bug_hours_per_bug = 1 \<rparr>,
                  \<lparr> r_role = ''QA'', r_share_of_hours = 1 / 4, r_meeting_load_per_story_hours = 1,
                     r_bug_hours_per_bug = 1 \<rparr>],
     CFG = \<lparr> cfg_hours_per_point = 2, cfg_bugs_per_sprint = 1, cfg_max_points_per_dev = 8,
             cfg_lambda_people_penalty = 1, cfg_require_release_for_roles = [''BE'', ''FE''],
             cfg_min_hours_to_count_release = 1, cfg_qa_coverage_factor = 1,
             cfg_wip_factor_QA_capacity = 4 / 5, cfg_forbid_points = Some [13] \<rparr> \<rparr>"

text \<open>A plan for it: \<open>s1\<close> and \<open>s2\<close> are selected, owned by ana and bob.\<close>

definition example_values :: "var \<Rightarrow> real" where
  "example_values w =
     (case map_of [(Z ''s1'', 1), (Z ''s2'', 1),
                   (X ''ana'' ''s1'', 2), (X ''ana'' ''s2'', 4),
                   (X ''bob'' ''s1'', 1), (X ''bob'' ''s2'', 2),
                   (X ''cai'' ''s1'', 2), (X ''cai'' ''s2'', 3),
                   (Y ''ana'', 1), (Y ''bob'', 1), (Y ''cai'', 1),
                   (Owner ''ana'' ''s1'', 1), (Owner ''bob'' ''s2'', 1),
                   (Rel ''ana'', 1), (Rel ''bob'', 1)] w of None \<Rightarrow> 0 | Some a \<Rightarrow> a)"

text \<open>
  A solver outcome: it reports a status and assigns the given values to the
  variables of the problem, as PuLP does after a solve; a variable that occurs
  neither in the objective nor in a constraint keeps \<open>None\<close>.
\<close>

definition assign_values :: "int \<Rightarrow> (var \<Rightarrow> real) \<Rightarrow> LpProblem \<Rightarrow> solution" where
  "assign_values st v m =
     \<lparr> m_status = st,
       varValue = (\<lambda>w. if w \<in> set (map var_id (variables m)) then Some (v w) else None) \<rparr>"

text \<open>One developer with no capacity and one story; nothing can be selected.\<close>

definition zero_capacity_input :: input where
  "zero_capacity_input = \<lparr>
     people_rows = [\<lparr> p_person = ''ana'', p_role = ''BE'', p_capacity_hours = 0 \<rparr>],
     story_rows = [\<lparr> s_story_id = ''s1'', s_points = 2, s_value = 10, s_depends_on = None \<rparr>],
     role_rows = [\<lparr> r_role = ''BE'', r_share_of_hours = 1 / 2, r_meeting_load_per_story_hours = 0,
                     r_bug_hours_per_bug = 0 \<rparr>],
     CFG = \<lparr> cfg_hours_per_point = 2, cfg_bugs_per_sprint = 0, cfg_max_points_per_dev = 8,
             cfg_lambda_people_penalty = 1, cfg_require_release_for_roles = [''BE'', ''FE''],
             cfg_min_hours_to_count_release = 1, cfg_qa_coverage_factor = 1,
             cfg_wip_factor_QA_capacity = 4 / 5, cfg_forbid_points = None \<rparr> \<rparr>"

text \<open>
  The same sprint with one bug expected, an hour each: the hours reserved for bugs
  exceed the capacity of the only role, and no plan is feasible.
\<close>

definition infeasible_input :: input where
  "infeasible_input = \<lparr>
     people_rows = [\<lparr> p_person = ''ana'', p_role = ''BE'', p_capacity_hours = 0 \<rparr>],
     story_rows = [\<lparr> s_story_id = ''s1'', s_points = 2, s_value = 10, s_depends_on = None \<rparr>],
     role_rows = [\<lparr> r_role = ''BE'', r_share_of_hours = 1 / 2, r_meeting_load_per_story_hours = 0,
                     r_bug_hours_per_bug = 1 \<rparr>],
     CFG = \<lparr> cfg_hours_per_point = 2, cfg_bugs_per_sprint = 1, cfg_max_points_per_dev = 8,
             cfg_lambda_people_penalty = 1, cfg_require_release_for_roles = [''BE'', ''FE''],
             cfg_min_hours_to_count_release = 1, cfg_qa_coverage_factor = 1,
             cfg_wip_factor_QA_capacity = 4 / 5, cfg_forbid_points = None \<rparr> \<rparr>"

section \<open>Properties\<close>

subsection \<open>Errors, comprehensions, loops and dictionaries\<close>

lemma raise_bind_Inr_iff: "raise_bind m f = Inr y \<longleftrightarrow> (\<exists>x. m = Inr x \<and> f x = Inr y)"
  by (cases m) auto

lemma comprehension_Inr:
  "(\<And>k. k \<in> set ks \<Longrightarrow> f k = Inr (g k)) \<Longrightarrow> comprehension f ks = Inr (map g ks)"
  by (induction ks) auto

lemma comprehension_Inr_iff:
  "comprehension f ks = Inr ys \<longleftrightarrow> list_all2 (\<lambda>k y. f k = Inr y) ks ys"
  by (induction ks arbitrary: ys) (auto simp: raise_bind_Inr_iff list_all2_Cons1)

lemma for_loop_rule_aux:
  "P pre st \<Longrightarrow>
   (\<And>pre' k st. P pre' st \<Longrightarrow> k \<in> set ks \<Longrightarrow> \<exists>st'. body st k = Inr st' \<and> P (pre' @ [k]) st') \<Longrightarrow>
   \<exists>st'. for_loop body st ks = Inr st' \<and> P (pre @ ks) st'"
proof (induction ks arbitrary: pre st)
  case Nil
  then show ?case by simp
next
  case (Cons k ks)
  from Cons.prems(2)[OF Cons.prems(1), of k] obtain st1 where
    s1: "body st k = Inr st1" and p1: "P (pre @ [k]) st1" by auto
  have "\<exists>st'. for_loop body st1 ks = Inr st' \<and> P ((pre @ [k]) @ ks) st'"
    by (rule Cons.IH[OF p1]) (use Cons.prems(2) in auto)
  with s1 show ?case by simp
qed

lemma for_loop_rule:
  "P [] st \<Longrightarrow>
   (\<And>pre k st. P pre st \<Longrightarrow> k \<in> set ks \<Longrightarrow> \<exists>st'. body st k = Inr st' \<and> P (pre @ [k]) st') \<Longrightarrow>
   \<exists>st'. for_loop body st ks = Inr st' \<and> P ks st'"
  using for_loop_rule_aux[of P "[]" st ks body] by simp

lemma dict_of_map_key:
  "dict_of (map (\<lambda>k. (h k, g k)) ks) k' = (if k' \<in> h ` set ks then dict_of (map (\<lambda>k. (h k, g k)) ks) k' else None)"
  by (auto simp: dict_of_def map_of_eq_None_iff image_image)

lemma dict_of_fun:
  "dict_of (map (\<lambda>k. (k, g k)) ks) k' = (if k' \<in> set ks then Some (g k') else None)"
  by (induction ks rule: rev_induct) (auto simp: dict_of_def)

lemma dict_of_pair_fun:
  "dict_of (map (\<lambda>k. ((k, r), g k)) ks) (k', r') = (if k' \<in> set ks \<and> r' = r then Some (g k') else None)"
  by (induction ks rule: rev_induct) (auto simp: dict_of_def)

lemma dict_of_dom: "dom (dict_of kvs) = fst ` set kvs"
  by (simp add: dict_of_def dom_map_of_conv_image_fst)

lemma dict_of_distinct:
  "distinct (map fst kvs) \<Longrightarrow> (k, v) \<in> set kvs \<Longrightarrow> dict_of kvs k = Some v"
  by (simp add: dict_of_def distinct_rev rev_map[symmetric])

lemma getitem_Some: "d k = Some v \<Longrightarrow> getitem d k = Inr v"
  by (simp add: getitem_def)

lemma points_S: "s \<in> set (S inp) \<Longrightarrow> \<exists>pt. points inp s = Some pt"
proof -
  assume "s \<in> set (S inp)"
  then have "s \<in> dom (points inp)"
    by (simp add: S_def points_def dict_of_dom image_image)
  then show ?thesis by auto
qed

lemma hrs_tot_dict_eq:
  "hrs_tot_dict inp = Inr (\<lambda>s. if s \<in> set (S inp) then Some (of_int (the (points inp s)) * hours_per_point inp) else None)"
proof -
  have "comprehension
          (\<lambda>s. raise_bind (getitem (points inp) s) (\<lambda>p. Inr (s, of_int p * hours_per_point inp)))
          (S inp) = Inr (map (\<lambda>s. (s, of_int (the (points inp s)) * hours_per_point inp)) (S inp))"
    by (rule comprehension_Inr) (use points_S in \<open>fastforce simp: getitem_def\<close>)
  then show ?thesis
    by (simp add: hrs_tot_dict_def dict_of_fun fun_eq_iff)
qed

lemma req_of_role_eq:
  assumes "ht = (\<lambda>s. if s \<in> set (S inp) then Some (of_int (the (points inp s)) * hours_per_point inp) else None)"
  shows "req_of_role inp ht r = Inr (\<lambda>sr. if fst sr \<in> set (S inp) \<and> snd sr = r then Some (req_base inp (fst sr) r) else None)"
proof -
  have "comprehension
          (\<lambda>s. raise_bind (getitem ht s)
             (\<lambda>h. Inr ((s, r),
                if r = ''QA'' then dict_get (role_share inp) r 0 * h * qa_cov_factor inp
                else dict_get (role_share inp) r 0 * h)))
          (S inp) = Inr (map (\<lambda>s. ((s, r), req_base inp s r)) (S inp))"
    by (rule comprehension_Inr) (simp add: assms getitem_def req_base_def)
  then show ?thesis
    by (simp add: req_of_role_def dict_of_pair_fun fun_eq_iff)
qed

lemma req_init_eq:
  assumes "ht = (\<lambda>s. if s \<in> set (S inp) then Some (of_int (the (points inp s)) * hours_per_point inp) else None)"
  shows "req_init inp ht = Inr (\<lambda>sr. if fst sr \<in> set (S inp) \<and> snd sr \<in> set fixed_roles then Some (req_base inp (fst sr) (snd sr)) else None)"
  unfolding req_init_def req_of_role_eq[OF assms]
  by (auto simp: fun_eq_iff map_add_def fixed_roles_def)

lemma for_loop_add_meeting_load:
  "set ks \<subseteq> dom rq \<Longrightarrow>
   \<exists>rq'. for_loop (add_meeting_load inp) rq ks = Inr rq' \<and> dom rq' = dom rq \<and>
     (\<forall>k. k \<notin> set ks \<longrightarrow> rq' k = rq k) \<and>
     (distinct ks \<longrightarrow> (\<forall>k \<in> set ks. rq' k = Some (the (rq k) + extra_of inp (snd k))))"
proof (induction ks arbitrary: rq)
  case Nil
  then show ?case by simp
next
  case (Cons k ks)
  from Cons.prems obtain h where h: "rq k = Some h" by auto
  define rq1 where "rq1 = (if dict_get (mtg_per_story inp) (snd k) 0 > 0
      then rq(k \<mapsto> h + dict_get (mtg_per_story inp) (snd k) 0) else rq)"
  have step: "add_meeting_load inp rq k = Inr rq1"
    by (simp add: add_meeting_load_def Let_def getitem_def h rq1_def)
  have d1: "dom rq1 = dom rq" using h by (auto simp: rq1_def)
  have v1: "rq1 k = Some (h + extra_of inp (snd k))"
    by (simp add: rq1_def extra_of_def h)
  have o1: "\<And>k'. k' \<noteq> k \<Longrightarrow> rq1 k' = rq k'" by (simp add: rq1_def)
  from Cons.prems d1 have "set ks \<subseteq> dom rq1" by auto
  from Cons.IH[OF this] obtain rq' where
    r: "for_loop (add_meeting_load inp) rq1 ks = Inr rq'" and
    d: "dom rq' = dom rq1" and
    o: "\<forall>k. k \<notin> set ks \<longrightarrow> rq' k = rq1 k" and
    v: "distinct ks \<longrightarrow> (\<forall>k \<in> set ks. rq' k = Some (the (rq1 k) + extra_of inp (snd k)))"
    by blast
  have "for_loop (add_meeting_load inp) rq (k # ks) = Inr rq'"
    by (simp add: step r)
  moreover have "dom rq' = dom rq" using d d1 by simp
  moreover have "\<forall>k'. k' \<notin> set (k # ks) \<longrightarrow> rq' k' = rq k'"
    using o o1 by auto
  moreover have "distinct (k # ks) \<longrightarrow> (\<forall>k' \<in> set (k # ks). rq' k' = Some (the (rq k') + extra_of inp (snd k')))"
  proof (intro impI ballI)
    fix k' assume dist: "distinct (k # ks)" and mem: "k' \<in> set (k # ks)"
    show "rq' k' = Some (the (rq k') + extra_of inp (snd k'))"
    proof (cases "k' = k")
      case True
      with dist have "k' \<notin> set ks" by simp
      with o have "rq' k' = rq1 k'" by blast
      with True v1 h show ?thesis by simp
    next
      case False
      with mem have "k' \<in> set ks" by simp
      with v dist have "rq' k' = Some (the (rq1 k') + extra_of inp (snd k'))" by simp
      with o1[OF False] show ?thesis by simp
    qed
  qed
  ultimately show ?case by blast
qed

lemma meeting_loop_eq:
  assumes rq0: "rq0 = (\<lambda>sr. if fst sr \<in> set (S inp) \<and> snd sr \<in> set fixed_roles then Some (req_base inp (fst sr) (snd sr)) else None)"
  shows "\<exists>rq. meeting_loop inp rq0 = Inr rq \<and>
     (\<forall>s r. s \<notin> set (S inp) \<or> r \<notin> set fixed_roles \<longrightarrow> rq (s, r) = None) \<and>
     (\<forall>s r. s \<in> set (S inp) \<and> r \<in> set fixed_roles \<and> r \<noteq> ''QA'' \<and> r \<noteq> ''TL'' \<longrightarrow> rq (s, r) = Some (req_base inp s r)) \<and>
     (distinct (S inp) \<longrightarrow> (\<forall>s r. s \<in> set (S inp) \<and> (r = ''QA'' \<or> r = ''TL'') \<longrightarrow>
         rq (s, r) = Some (req_base inp s r + extra_of inp r)))"
proof -
  let ?ks = "List.product (S inp) [''QA'', ''TL'']"
  have sub: "set ?ks \<subseteq> dom rq0"
    by (auto simp: rq0 fixed_roles_def)
  from for_loop_add_meeting_load[OF sub, of inp] obtain rq where
    r: "for_loop (add_meeting_load inp) rq0 ?ks = Inr rq" and
    d: "dom rq = dom rq0" and
    o: "\<forall>k. k \<notin> set ?ks \<longrightarrow> rq k = rq0 k" and
    v: "distinct ?ks \<longrightarrow> (\<forall>k \<in> set ?ks. rq k = Some (the (rq0 k) + extra_of inp (snd k)))"
    by blast
  have a: "\<forall>s r. s \<notin> set (S inp) \<or> r \<notin> set fixed_roles \<longrightarrow> rq (s, r) = None"
  proof (intro allI impI)
    fix s r assume "s \<notin> set (S inp) \<or> r \<notin> set fixed_roles"
    then have "(s, r) \<notin> dom rq0" by (auto simp: rq0)
    with d show "rq (s, r) = None" by auto
  qed
  have b: "\<forall>s r. s \<in> set (S inp) \<and> r \<in> set fixed_roles \<and> r \<noteq> ''QA'' \<and> r \<noteq> ''TL'' \<longrightarrow> rq (s, r) = Some (req_base inp s r)"
    using o by (auto simp: rq0)
  have c: "distinct (S inp) \<longrightarrow> (\<forall>s r. s \<in> set (S inp) \<and> (r = ''QA'' \<or> r = ''TL'') \<longrightarrow>
         rq (s, r) = Some (req_base inp s r + extra_of inp r))"
  proof (intro impI allI)
    fix s r assume dist: "distinct (S inp)" and sr: "s \<in> set (S inp) \<and> (r = ''QA'' \<or> r = ''TL'')"
    have "distinct ?ks" using dist by (simp add: distinct_product)
    moreover have "(s, r) \<in> set ?ks" using sr by auto
    ultimately have "rq (s, r) = Some (the (rq0 (s, r)) + extra_of inp r)"
      using v by fastforce
    moreover have "rq0 (s, r) = Some (req_base inp s r)" using sr by (auto simp: rq0 fixed_roles_def)
    ultimately show "rq (s, r) = Some (req_base inp s r + extra_of inp r)" by simp
  qed
  show ?thesis using r a b c by (auto simp: meeting_loop_def)
qed

lemma role_of_I: "i \<in> set (I inp) \<Longrightarrow> \<exists>r. role_of inp i = Some r"
proof -
  assume "i \<in> set (I inp)"
  then have "i \<in> dom (role_of inp)"
    by (simp add: I_def role_of_def dict_of_dom image_image)
  then show ?thesis by auto
qed

lemma cap_i_I: "i \<in> set (I inp) \<Longrightarrow> \<exists>c. cap_i inp i = Some c"
proof -
  assume "i \<in> set (I inp)"
  then have "i \<in> dom (cap_i inp)"
    by (simp add: I_def cap_i_def dict_of_dom image_image)
  then show ?thesis by auto
qed

lemma I_by_role_loop_eq:
  "\<exists>d. I_by_role_loop inp = Inr d \<and>
     (\<forall>r. d r = (if \<exists>i \<in> set (I inp). role_of inp i = Some r then Some (in_role inp r) else None))"
proof -
  let ?P = "\<lambda>pre d. \<forall>r. d r = (if \<exists>i \<in> set pre. role_of inp i = Some r
                then Some (filter (\<lambda>i. role_of inp i = Some r) pre) else None)"
  have "\<exists>d. for_loop (I_by_role_append inp) Map.empty (I inp) = Inr d \<and> ?P (I inp) d"
  proof (rule for_loop_rule)
    show "?P [] Map.empty" by simp
  next
    fix pre k and st :: "string \<rightharpoonup> string list"
    assume P: "?P pre st" and k: "k \<in> set (I inp)"
    from role_of_I[OF k] obtain r where r: "role_of inp k = Some r" by auto
    show "\<exists>st'. I_by_role_append inp st k = Inr st' \<and> ?P (pre @ [k]) st'"
      using P r by (auto simp: I_by_role_append_def getitem_def defaultdict_getitem_def split: option.splits)
  qed
  then show ?thesis unfolding I_by_role_loop_def in_role_def by blast
qed

lemma role_cap_loop_eq:
  assumes ibr: "\<forall>r. ibr r = (if \<exists>i \<in> set (I inp). role_of inp i = Some r then Some (in_role inp r) else None)"
  shows "\<exists>rc d. role_cap_loop inp ibr = Inr (rc, d) \<and>
     rc = (\<lambda>r. if r \<in> set (R inp) then Some (raw_cap inp r) else None) \<and>
     dom d = dom ibr \<union> set (R inp) \<and> (\<forall>r. members d r = in_role inp r)"
proof -
  let ?P = "\<lambda>pre st. fst st = map (\<lambda>r. (r, raw_cap inp r)) pre \<and>
               dom (snd st) = dom ibr \<union> set pre \<and> (\<forall>r. members (snd st) r = in_role inp r)"
  have m0: "\<forall>r. members ibr r = in_role inp r"
    using ibr by (auto simp: members_def in_role_def filter_empty_conv)
  have "\<exists>st. for_loop (role_cap_step inp) ([], ibr) (R inp) = Inr st \<and> ?P (R inp) st"
  proof (rule for_loop_rule)
    show "?P [] ([], ibr)" using m0 by simp
  next
    fix pre k and st :: "(string \<times> real) list \<times> (string \<rightharpoonup> string list)"
    assume P: "?P pre st"
    obtain l d' where g: "defaultdict_getitem (snd st) k = (l, d')" by force
    have "l = members (snd st) k" using g
      by (auto simp: defaultdict_getitem_def members_def split: option.splits)
    with P have l: "l = in_role inp k" by simp
    have d': "dom d' = dom (snd st) \<union> {k}" using g
      by (auto simp: defaultdict_getitem_def split: option.splits)
    have m': "\<forall>r. members d' r = members (snd st) r" using g
      by (auto simp: defaultdict_getitem_def members_def split: option.splits if_splits)
    have c: "comprehension (getitem (cap_i inp)) l = Inr (map (\<lambda>i. the (cap_i inp i)) l)"
    proof (rule comprehension_Inr)
      fix i assume "i \<in> set l"
      then have "i \<in> set (I inp)" by (simp add: l in_role_def)
      from cap_i_I[OF this] show "getitem (cap_i inp) i = Inr (the (cap_i inp i))"
        by (auto simp: getitem_def)
    qed
    have "role_cap_step inp st k = Inr (fst st @ [(k, raw_cap inp k)], d')"
      using c by (simp add: role_cap_step_def g raw_cap_def l)
    moreover have "?P (pre @ [k]) (fst st @ [(k, raw_cap inp k)], d')"
      using P d' m' by auto
    ultimately show "\<exists>st'. role_cap_step inp st k = Inr st' \<and> ?P (pre @ [k]) st'" by blast
  qed
  then obtain st where s: "for_loop (role_cap_step inp) ([], ibr) (R inp) = Inr st" and p: "?P (R inp) st"
    by blast
  have "role_cap_loop inp ibr = Inr (dict_of (fst st), snd st)"
    by (simp add: role_cap_loop_def s)
  moreover have "dict_of (fst st) = (\<lambda>r. if r \<in> set (R inp) then Some (raw_cap inp r) else None)"
    using p by (simp add: dict_of_fun fun_eq_iff)
  ultimately show ?thesis using p by auto
qed

lemma derive_total:
  "\<exists>d. derive inp = Inr d \<and>
     (\<forall>s r. s \<notin> set (S inp) \<or> r \<notin> set fixed_roles \<longrightarrow> req d (s, r) = None) \<and>
     (\<forall>s r. s \<in> set (S inp) \<and> r \<in> set fixed_roles \<and> r \<noteq> ''QA'' \<and> r \<noteq> ''TL'' \<longrightarrow> req d (s, r) = Some (req_base inp s r)) \<and>
     (distinct (S inp) \<longrightarrow> (\<forall>s r. s \<in> set (S inp) \<and> (r = ''QA'' \<or> r = ''TL'') \<longrightarrow>
         req d (s, r) = Some (req_base inp s r + extra_of inp r))) \<and>
     role_cap d = (\<lambda>r. if r \<in> set (R inp) then Some (raw_cap inp r) else None) \<and>
     role_bug_reserve d = role_bug_reserve_dict inp \<and>
     role_cap_eff d = role_cap_eff_dict inp (role_cap d) (role_bug_reserve_dict inp) \<and>
     dom (I_by_role d) = {r. \<exists>i \<in> set (I inp). role_of inp i = Some r} \<union> set (R inp) \<and>
     (\<forall>r. members (I_by_role d) r = in_role inp r)"
proof -
  from I_by_role_loop_eq[of inp] obtain ibr0 where
    i1: "I_by_role_loop inp = Inr ibr0" and
    i2: "\<forall>r. ibr0 r = (if \<exists>i \<in> set (I inp). role_of inp i = Some r then Some (in_role inp r) else None)"
    by blast
  define ht where "ht = (\<lambda>s. if s \<in> set (S inp) then Some (of_int (the (points inp s)) * hours_per_point inp) else None)"
  have h1: "hrs_tot_dict inp = Inr ht" by (simp add: hrs_tot_dict_eq ht_def)
  define rq0 where "rq0 = (\<lambda>sr. if fst sr \<in> set (S inp) \<and> snd sr \<in> set fixed_roles then Some (req_base inp (fst sr) (snd sr)) else None)"
  have r1: "req_init inp ht = Inr rq0" unfolding rq0_def by (rule req_init_eq) (fact ht_def)
  from meeting_loop_eq[OF rq0_def] obtain rq where
    m1: "meeting_loop inp rq0 = Inr rq" and
    m2: "\<forall>s r. s \<notin> set (S inp) \<or> r \<notin> set fixed_roles \<longrightarrow> rq (s, r) = None" and
    m3: "\<forall>s r. s \<in> set (S inp) \<and> r \<in> set fixed_roles \<and> r \<noteq> ''QA'' \<and> r \<noteq> ''TL'' \<longrightarrow> rq (s, r) = Some (req_base inp s r)" and
    m4: "distinct (S inp) \<longrightarrow> (\<forall>s r. s \<in> set (S inp) \<and> (r = ''QA'' \<or> r = ''TL'') \<longrightarrow>
         rq (s, r) = Some (req_base inp s r + extra_of inp r))"
    by blast
  from role_cap_loop_eq[OF i2] obtain rc d where
    c1: "role_cap_loop inp ibr0 = Inr (rc, d)" and
    c2: "rc = (\<lambda>r. if r \<in> set (R inp) then Some (raw_cap inp r) else None)" and
    c3: "dom d = dom ibr0 \<union> set (R inp)" and
    c4: "\<forall>r. members d r = in_role inp r"
    by blast
  have dom0: "dom ibr0 = {r. \<exists>i \<in> set (I inp). role_of inp i = Some r}"
    using i2 by (auto simp: dom_def)
  have "derive inp = Inr \<lparr> I_by_role = d, hrs_tot = ht, req = rq, role_cap = rc,
           role_bug_reserve = role_bug_reserve_dict inp,
           role_cap_eff = role_cap_eff_dict inp rc (role_bug_reserve_dict inp) \<rparr>"
    by (simp add: derive_def i1 h1 r1 m1 c1)
  then show ?thesis using m2 m3 m4 c2 c3 c4 dom0 by simp
qed

lemma raw_cap_rows:
  assumes "distinct (I inp)"
  shows "raw_cap inp r = sum_list (map p_capacity_hours (filter (\<lambda>p. p_role p = r) (people_rows inp)))"
proof -
  have d1: "distinct (map fst (map (\<lambda>p. (p_person p, p_role p)) (people_rows inp)))"
    using assms by (simp add: I_def comp_def)
  have d2: "distinct (map fst (map (\<lambda>p. (p_person p, p_capacity_hours p)) (people_rows inp)))"
    using assms by (simp add: I_def comp_def)
  have ro: "\<And>p. p \<in> set (people_rows inp) \<Longrightarrow> role_of inp (p_person p) = Some (p_role p)"
    unfolding role_of_def by (rule dict_of_distinct[OF d1]) auto
  have ca: "\<And>p. p \<in> set (people_rows inp) \<Longrightarrow> cap_i inp (p_person p) = Some (p_capacity_hours p)"
    unfolding cap_i_def by (rule dict_of_distinct[OF d2]) auto
  have ir: "in_role inp r = map p_person (filter (\<lambda>p. p_role p = r) (people_rows inp))"
    unfolding in_role_def I_def filter_map comp_def
    by (rule arg_cong[where f="map p_person"], rule filter_cong) (auto simp: ro)
  have "raw_cap inp r = sum_list (map (\<lambda>p. the (cap_i inp (p_person p))) (filter (\<lambda>p. p_role p = r) (people_rows inp)))"
    unfolding raw_cap_def ir by (simp add: comp_def)
  also have "\<dots> = sum_list (map p_capacity_hours (filter (\<lambda>p. p_role p = r) (people_rows inp)))"
    by (rule arg_cong[where f=sum_list], rule map_cong) (auto simp: ca)
  finally show ?thesis .
qed

subsection \<open>The running example\<close>

lemma example_S: "S example_input = [''s1'', ''s2'', ''s4'']"
  by (simp add: S_def example_input_def eligible_def forbid_points_def)

lemma example_I: "I example_input = [''ana'', ''bob'', ''cai'']"
  by (simp add: I_def example_input_def)

lemma example_R: "R example_input = [''BE'', ''FE'', ''QA'']"
  by (simp add: R_def example_input_def)

subsection \<open>Effective role capacity\<close>

text \<open>
  Claim C4. With distinct person identifiers, the requirement calculator returns,
  and for every role of the role records the effective capacity is the sum of the
  capacities of the people of that role minus bugs per sprint times the role's
  bug hours per bug; for QA it is the minimum of that and the summed QA capacity
  (before the reservation) times the QA work-in-progress factor.
\<close>

theorem role_cap_eff_formula:
  assumes "distinct (I inp)"
  shows "\<exists>d. derive inp = Inr d \<and>
    (\<forall>r \<in> set (R inp). role_cap_eff d r = Some
       (let raw = sum_list (map p_capacity_hours (filter (\<lambda>p. p_role p = r) (people_rows inp)));
            eff = raw - of_int (bugs_per_sprint inp) * dict_get (bug_hours_per_bug inp) r 0
        in if r = ''QA'' then min eff (raw * wip_factor_QA inp) else eff))"
proof -
  from derive_total[of inp] obtain d where
    d: "derive inp = Inr d" and
    rc: "role_cap d = (\<lambda>r. if r \<in> set (R inp) then Some (raw_cap inp r) else None)" and
    rce: "role_cap_eff d = role_cap_eff_dict inp (role_cap d) (role_bug_reserve_dict inp)"
    by blast
  have "\<forall>r \<in> set (R inp). role_cap_eff d r = Some
       (let raw = raw_cap inp r;
            eff = raw - of_int (bugs_per_sprint inp) * dict_get (bug_hours_per_bug inp) r 0
        in if r = ''QA'' then min eff (raw * wip_factor_QA inp) else eff)"
    unfolding rce rc role_cap_eff_dict_def role_bug_reserve_dict_def
    by (simp add: dict_of_fun dict_get_def Let_def)
  then show ?thesis using d by (auto simp: raw_cap_rows[OF assms])
qed

theorem role_cap_eff_formula_witness:
  "distinct (I example_input) \<and>
   role_cap_eff (projr (derive example_input)) ''BE'' = Some 9 \<and>
   role_cap_eff (projr (derive example_input)) ''QA'' = Some 8"
proof -
  have dist: "distinct (I example_input)" by (simp add: example_I)
  from role_cap_eff_formula[OF dist] obtain d where
    d: "derive example_input = Inr d" and
    f: "\<forall>r \<in> set (R example_input). role_cap_eff d r = Some
       (let raw = sum_list (map p_capacity_hours (filter (\<lambda>p. p_role p = r) (people_rows example_input)));
            eff = raw - of_int (bugs_per_sprint example_input) * dict_get (bug_hours_per_bug example_input) r 0
        in if r = ''QA'' then min eff (raw * wip_factor_QA example_input) else eff)"
    by blast
  have be: "''BE'' \<in> set (R example_input)" and qa: "''QA'' \<in> set (R example_input)"
    by (simp_all add: example_R)
  have "role_cap_eff d ''BE'' = Some 9"
    using f[rule_format, OF be]
    by (simp add: bugs_per_sprint_def bug_hours_per_bug_def wip_factor_QA_def
        dict_get_def dict_of_def example_input_def)
  moreover have "role_cap_eff d ''QA'' = Some 8"
    using f[rule_format, OF qa]
    by (simp add: bugs_per_sprint_def bug_hours_per_bug_def wip_factor_QA_def
        dict_get_def dict_of_def example_input_def)
  ultimately show ?thesis using dist d by simp
qed

subsection \<open>Required hours\<close>

text \<open>
  Claim C3. With distinct eligible story identifiers, the requirement calculator
  returns, and for every eligible story \<open>s\<close> the entry \<open>req[(s, r)]\<close> of
  each of the five fixed roles is points times hours per point times the role's
  share (0 for a role absent from the role records), for QA times the QA coverage
  factor, plus, for QA and TL, the role's meeting load when that is positive.
  No other role has an entry.
\<close>

theorem req_formula:
  assumes "distinct (S inp)"
  shows "\<exists>d. derive inp = Inr d \<and>
    (\<forall>s \<in> set (S inp). \<exists>pt. points inp s = Some pt \<and>
      (\<forall>r. req d (s, r) =
        (if r \<in> set fixed_roles
         then Some (of_int pt * hours_per_point inp * dict_get (role_share inp) r 0
                      * (if r = ''QA'' then qa_cov_factor inp else 1)
                    + (if (r = ''QA'' \<or> r = ''TL'') \<and> dict_get (mtg_per_story inp) r 0 > 0
                       then dict_get (mtg_per_story inp) r 0 else 0))
         else None)))"
proof -
  from derive_total[of inp] assms obtain d where
    d: "derive inp = Inr d" and
    m2: "\<forall>s r. s \<notin> set (S inp) \<or> r \<notin> set fixed_roles \<longrightarrow> req d (s, r) = None" and
    m3: "\<forall>s r. s \<in> set (S inp) \<and> r \<in> set fixed_roles \<and> r \<noteq> ''QA'' \<and> r \<noteq> ''TL'' \<longrightarrow> req d (s, r) = Some (req_base inp s r)" and
    m4: "\<forall>s r. s \<in> set (S inp) \<and> (r = ''QA'' \<or> r = ''TL'') \<longrightarrow>
         req d (s, r) = Some (req_base inp s r + extra_of inp r)"
    by blast
  have "\<exists>pt. points inp s = Some pt \<and>
      (\<forall>r. req d (s, r) =
        (if r \<in> set fixed_roles
         then Some (of_int pt * hours_per_point inp * dict_get (role_share inp) r 0
                      * (if r = ''QA'' then qa_cov_factor inp else 1)
                    + (if (r = ''QA'' \<or> r = ''TL'') \<and> dict_get (mtg_per_story inp) r 0 > 0
                       then dict_get (mtg_per_story inp) r 0 else 0))
         else None))" if s: "s \<in> set (S inp)" for s
  proof -
    from points_S[OF s] obtain pt where pt: "points inp s = Some pt" by blast
    have "req d (s, r) =
        (if r \<in> set fixed_roles
         then Some (of_int pt * hours_per_point inp * dict_get (role_share inp) r 0
                      * (if r = ''QA'' then qa_cov_factor inp else 1)
                    + (if (r = ''QA'' \<or> r = ''TL'') \<and> dict_get (mtg_per_story inp) r 0 > 0
                       then dict_get (mtg_per_story inp) r 0 else 0))
         else None)" for r
    proof (cases "r \<in> set fixed_roles")
      case False
      with m2 show ?thesis by simp
    next
      case True
      show ?thesis
      proof (cases "r = ''QA'' \<or> r = ''TL''")
        case True
        with m4 s have "req d (s, r) = Some (req_base inp s r + extra_of inp r)" by blast
        with True show ?thesis by (auto simp: req_base_def extra_of_def pt fixed_roles_def)
      next
        case False
        with m3 s \<open>r \<in> set fixed_roles\<close> have "req d (s, r) = Some (req_base inp s r)" by blast
        with False \<open>r \<in> set fixed_roles\<close> show ?thesis by (simp add: req_base_def pt)
      qed
    qed
    with pt show ?thesis by blast
  qed
  with d show ?thesis by blast
qed

theorem req_formula_witness:
  "distinct (S example_input) \<and>
   req (projr (derive example_input)) (''s2'', ''QA'') = Some 3 \<and>
   req (projr (derive example_input)) (''s2'', ''BE'') = Some 4 \<and>
   req (projr (derive example_input)) (''s2'', ''PM'') = None"
proof -
  have dist: "distinct (S example_input)" by (simp add: example_S)
  from req_formula[OF dist] obtain d where
    d: "derive example_input = Inr d" and
    f: "\<forall>s \<in> set (S example_input). \<exists>pt. points example_input s = Some pt \<and>
      (\<forall>r. req d (s, r) =
        (if r \<in> set fixed_roles
         then Some (of_int pt * hours_per_point example_input * dict_get (role_share example_input) r 0
                      * (if r = ''QA'' then qa_cov_factor example_input else 1)
                    + (if (r = ''QA'' \<or> r = ''TL'') \<and> dict_get (mtg_per_story example_input) r 0 > 0
                       then dict_get (mtg_per_story example_input) r 0 else 0))
         else None))"
    by blast
  have p: "points example_input ''s2'' = Some 4"
    by (simp add: points_def example_input_def eligible_def forbid_points_def dict_of_def)
  have "''s2'' \<in> set (S example_input)" by (simp add: example_S)
  with f p have g: "\<forall>r. req d (''s2'', r) =
        (if r \<in> set fixed_roles
         then Some (of_int 4 * hours_per_point example_input * dict_get (role_share example_input) r 0
                      * (if r = ''QA'' then qa_cov_factor example_input else 1)
                    + (if (r = ''QA'' \<or> r = ''TL'') \<and> dict_get (mtg_per_story example_input) r 0 > 0
                       then dict_get (mtg_per_story example_input) r 0 else 0))
         else None)"
    by fastforce
  have "req d (''s2'', ''QA'') = Some 3"
    by (simp add: g fixed_roles_def hours_per_point_def qa_cov_factor_def role_share_def
        mtg_per_story_def dict_get_def dict_of_def example_input_def)
  moreover have "req d (''s2'', ''BE'') = Some 4"
    by (simp add: g fixed_roles_def hours_per_point_def qa_cov_factor_def role_share_def
        mtg_per_story_def dict_get_def dict_of_def example_input_def)
  moreover have "req d (''s2'', ''PM'') = None"
    by (simp add: g fixed_roles_def)
  ultimately show ?thesis using dist d by simp
qed

subsection \<open>Variables, expressions and feasibility\<close>

lemma comprehension_mem:
  "comprehension f ks = Inr ys \<Longrightarrow> k \<in> set ks \<Longrightarrow> \<exists>y \<in> set ys. f k = Inr y"
  by (induction ks arbitrary: ys) (auto simp: raise_bind_Inr_iff)

lemma comprehension_mem_rev:
  "comprehension f ks = Inr ys \<Longrightarrow> y \<in> set ys \<Longrightarrow> \<exists>k \<in> set ks. f k = Inr y"
  by (induction ks arbitrary: ys) (auto simp: raise_bind_Inr_iff)

lemma comprehension_eq_map:
  "comprehension f ks = Inr ys \<Longrightarrow> (\<And>k. k \<in> set ks \<Longrightarrow> f k = Inr (g k)) \<Longrightarrow> ys = map g ks"
  using comprehension_Inr[of ks f g] by simp

lemma concat_if_filter: "concat (map (\<lambda>x. if P x then [x] else []) xs) = filter P xs"
  by (induction xs) auto

lemma LpVariable_dicts_eq:
  "LpVariable_dicts name ks lb ub c k =
     (if k \<in> set ks then Some \<lparr> var_id = name k, lowBound = lb, upBound = ub, cat = c \<rparr> else None)"
  by (simp add: LpVariable_dicts_def dict_of_fun)

lemma x_dict_eq:
  "x_dict inp k = (if fst k \<in> set (I inp) \<and> snd k \<in> set (S inp) then Some (continuous_var (X (fst k) (snd k))) else None)"
  by (cases k) (simp add: x_dict_def LpVariable_dicts_eq continuous_var_def)

lemma owner_dict_eq:
  "owner_dict inp k = (if fst k \<in> set (I inp) \<and> snd k \<in> set (S inp) then Some (binary_var (Owner (fst k) (snd k))) else None)"
  by (cases k) (simp add: owner_dict_def LpVariable_dicts_eq binary_var_def)

lemma z_dict_eq: "z_dict inp s = (if s \<in> set (S inp) then Some (binary_var (Z s)) else None)"
  by (simp add: z_dict_def LpVariable_dicts_eq binary_var_def)

lemma y_dict_eq: "y_dict inp i = (if i \<in> set (I inp) then Some (binary_var (Y i)) else None)"
  by (simp add: y_dict_def LpVariable_dicts_eq binary_var_def)

lemma rel_dict_eq: "rel_dict inp i = (if i \<in> set (I inp) then Some (binary_var (Rel i)) else None)"
  by (simp add: rel_dict_def LpVariable_dicts_eq binary_var_def)

lemma var_at_Inr_iff: "var_at d k = Inr e \<longleftrightarrow> (\<exists>lv. d k = Some lv \<and> e = expr_of_var lv)"
  by (auto simp: var_at_def getitem_def raise_bind_Inr_iff split: option.splits)

lemma getitem_Inr_iff: "getitem d k = Inr v \<longleftrightarrow> d k = Some v"
  by (simp add: getitem_def split: option.splits)

lemma expr_value_of_var [simp]: "expr_value v (expr_of_var lv) = v (var_id lv)"
  by (simp add: expr_value_def expr_of_var_def)

lemma expr_value_of_const [simp]: "expr_value v (expr_of_const c) = c"
  by (simp add: expr_value_def expr_of_const_def)

lemma expr_value_scale [simp]: "expr_value v (expr_scale c e) = c * expr_value v e"
proof -
  have "sum_list (map (\<lambda>t. snd t * v (var_id (fst t))) (map (\<lambda>t. (fst t, c * snd t)) ts))
        = c * sum_list (map (\<lambda>t. snd t * v (var_id (fst t))) ts)" for ts :: "(LpVariable \<times> real) list"
    by (induction ts) (simp_all add: algebra_simps)
  then show ?thesis by (simp add: expr_value_def expr_scale_def algebra_simps)
qed

lemma expr_value_sub [simp]: "expr_value v (expr_sub a b) = expr_value v a - expr_value v b"
proof -
  have "expr_value v (expr_sub a b) = expr_value v a + (expr_value v (expr_scale (- 1) b))"
    by (simp add: expr_value_def expr_sub_def expr_scale_def)
  then show ?thesis by simp
qed

lemma expr_value_lpSum [simp]: "expr_value v (lpSum es) = sum_list (map (expr_value v) es)"
  by (induction es) (simp_all add: expr_value_def lpSum_def)

lemma expr_vars_of_var [simp]: "expr_vars (expr_of_var lv) = {lv}"
  by (simp add: expr_vars_def expr_of_var_def)

lemma expr_vars_of_const [simp]: "expr_vars (expr_of_const c) = {}"
  by (simp add: expr_vars_def expr_of_const_def)

lemma expr_vars_scale [simp]: "expr_vars (expr_scale c e) = (if c = 0 then {} else expr_vars e)"
  by (force simp: expr_vars_def expr_scale_def)

lemma expr_vars_sub [simp]: "expr_vars (expr_sub a b) = expr_vars a \<union> expr_vars b"
proof -
  have "expr_vars (expr_sub a b) = expr_vars a \<union> expr_vars (expr_scale (- 1) b)"
    by (simp add: expr_vars_def expr_sub_def image_Un)
  then show ?thesis by simp
qed

lemma expr_vars_lpSum [simp]: "expr_vars (lpSum es) = (\<Union>e \<in> set es. expr_vars e)"
  by (auto simp: expr_vars_def lpSum_def)

lemma constraint_variables_set [simp]:
  "set (constraint_variables (LpConstraint l sn r)) = expr_vars l \<union> expr_vars r"
  by (simp add: expr_vars_def)

lemma variables_set:
  "set (variables m) = expr_vars (objective m) \<union> (\<Union>nc \<in> set (constraints m). set (constraint_variables (snd nc)))"
  by (simp add: variables_def expr_vars_def)

lemma feasible_holds:
  "feasible v m \<Longrightarrow> nc \<in> set (constraints m) \<Longrightarrow> holds v (snd nc)"
  by (simp add: feasible_def list_all_iff)

lemma feasible_domain:
  "feasible v m \<Longrightarrow> nc \<in> set (constraints m) \<Longrightarrow> lv \<in> set (constraint_variables (snd nc)) \<Longrightarrow>
   in_domain lv (v (var_id lv))"
  by (auto simp: feasible_def list_all_iff variables_set)

lemma in_domain_binary: "in_domain (binary_var w) a \<Longrightarrow> a = 0 \<or> a = 1"
  by (simp add: in_domain_def binary_var_def)

lemma devs_list_eq:
  "devs_list inp = Inr (filter (\<lambda>i. role_of inp i = Some ''BE'' \<or> role_of inp i = Some ''FE'') (I inp))"
proof -
  let ?g = "\<lambda>i. if role_of inp i = Some ''BE'' \<or> role_of inp i = Some ''FE'' then [i] else []"
  have "comprehension
        (\<lambda>i. raise_bind (getitem (role_of inp) i) (\<lambda>r. Inr (if r \<in> set [''BE'', ''FE''] then [i] else [])))
        (I inp) = Inr (map ?g (I inp))"
  proof (rule comprehension_Inr)
    fix k assume "k \<in> set (I inp)"
    from role_of_I[OF this] obtain r where "role_of inp k = Some r" by blast
    then show "raise_bind (getitem (role_of inp) k) (\<lambda>r. Inr (if r \<in> set [''BE'', ''FE''] then [k] else [])) = Inr (?g k)"
      by (simp add: getitem_def)
  qed
  then show ?thesis by (simp add: devs_list_def concat_if_filter)
qed

lemma build_InrD:
  assumes "build inp d = Inr b"
  obtains obj caps reqs rcs dv ows pcs rls dps where
    "objective_expr inp = Inr obj"
    "comprehension (Cap_constraint inp) (I inp) = Inr caps"
    "comprehension (Req_constraint inp d) (List.product (S inp) fixed_roles) = Inr reqs"
    "comprehension (RoleCap_constraint inp d) fixed_roles = Inr rcs"
    "devs_list inp = Inr dv"
    "comprehension (Owner_constraints inp dv) (S inp) = Inr ows"
    "comprehension (PointsCap_constraint inp) dv = Inr pcs"
    "comprehension (Rel_constraints inp) dv = Inr rls"
    "comprehension (Dep_constraint inp) (deps inp) = Inr dps"
    "b = \<lparr> x_vars = x_dict inp, z_vars = z_dict inp, y_vars = y_dict inp,
           owner_vars = owner_dict inp, rel_vars = rel_dict inp, devs = dv,
           problem = \<lparr> objective = obj,
                       constraints = caps @ concat reqs @ concat rcs @ concat ows @ pcs
                                     @ concat rls @ concat dps \<rparr> \<rparr>"
  using assms unfolding build_def raise_bind_Inr_iff by force

lemma construct_InrD:
  assumes "construct inp = Inr b"
  obtains d where "derive inp = Inr d" "build inp d = Inr b"
  using assms unfolding construct_def raise_bind_Inr_iff by blast

lemma expr_vars_fold [simp]: "fst ` set (expr_terms e) = expr_vars e"
  by (simp add: expr_vars_def)

subsection \<open>Sums of binary values\<close>

lemma binary_sum_nonneg:
  fixes f :: "'a \<Rightarrow> real"
  shows "\<forall>x \<in> set xs. f x = 0 \<or> f x = 1 \<Longrightarrow> 0 \<le> sum_list (map f xs)"
  by (rule sum_list_nonneg) auto

lemma binary_sum_zero:
  fixes f :: "'a \<Rightarrow> real"
  assumes "\<forall>x \<in> set xs. f x = 0 \<or> f x = 1" and "sum_list (map f xs) = 0"
  shows "\<forall>x \<in> set xs. f x = 0"
  using assms
proof (induction xs)
  case Nil
  then show ?case by simp
next
  case (Cons a xs)
  have nn: "0 \<le> sum_list (map f xs)" using Cons.prems(1) by (intro binary_sum_nonneg) simp
  from Cons.prems have "f a = 0 \<or> f a = 1" by simp
  with Cons.prems(2) nn have a0: "f a = 0" and r0: "sum_list (map f xs) = 0" by auto
  with Cons.IH Cons.prems(1) show ?case by simp
qed

lemma binary_sum_one:
  fixes f :: "'a \<Rightarrow> real"
  assumes "\<forall>x \<in> set xs. f x = 0 \<or> f x = 1" and "sum_list (map f xs) = 1"
  shows "\<exists>!x. x \<in> set xs \<and> f x = 1"
  using assms
proof (induction xs)
  case Nil
  then show ?case by simp
next
  case (Cons a xs)
  have b: "\<forall>x \<in> set xs. f x = 0 \<or> f x = 1" using Cons.prems(1) by simp
  from Cons.prems have "f a = 0 \<or> f a = 1" by simp
  then show ?case
  proof
    assume a0: "f a = 0"
    with Cons.prems(2) have "sum_list (map f xs) = 1" by simp
    from Cons.IH[OF b this] obtain x where x: "x \<in> set xs" "f x = 1"
      and u: "\<And>y. y \<in> set xs \<and> f y = 1 \<Longrightarrow> y = x" by blast
    show ?thesis
    proof (rule ex1I[of _ x])
      show "x \<in> set (a # xs) \<and> f x = 1" using x by simp
    next
      fix y assume "y \<in> set (a # xs) \<and> f y = 1"
      with a0 have "y \<in> set xs \<and> f y = 1" by auto
      then show "y = x" by (rule u)
    qed
  next
    assume a1: "f a = 1"
    with Cons.prems(2) have "sum_list (map f xs) = 0" by simp
    from binary_sum_zero[OF b this] have z: "\<forall>x \<in> set xs. f x = 0" .
    show ?thesis
    proof (rule ex1I[of _ a])
      show "a \<in> set (a # xs) \<and> f a = 1" using a1 by simp
    next
      fix y assume y: "y \<in> set (a # xs) \<and> f y = 1"
      show "y = a"
      proof (rule ccontr)
        assume "y \<noteq> a"
        with y have "y \<in> set xs" by simp
        with z have "f y = 0" by simp
        with y show False by simp
      qed
    qed
  qed
qed

subsection \<open>The parts of the constructed problem\<close>

lemma devs_subset_I:
  assumes "build inp d = Inr b"
  shows "devs b = filter (\<lambda>i. role_of inp i = Some ''BE'' \<or> role_of inp i = Some ''FE'') (I inp)"
  using assms by (elim build_InrD) (simp add: devs_list_eq)

lemma constraints_parts:
  assumes "build inp d = Inr b"
  obtains obj caps reqs rcs ows pcs rls dps where
    "objective_expr inp = Inr obj"
    "comprehension (Cap_constraint inp) (I inp) = Inr caps"
    "comprehension (Req_constraint inp d) (List.product (S inp) fixed_roles) = Inr reqs"
    "comprehension (RoleCap_constraint inp d) fixed_roles = Inr rcs"
    "comprehension (Owner_constraints inp (devs b)) (S inp) = Inr ows"
    "comprehension (PointsCap_constraint inp) (devs b) = Inr pcs"
    "comprehension (Rel_constraints inp) (devs b) = Inr rls"
    "comprehension (Dep_constraint inp) (deps inp) = Inr dps"
    "objective (problem b) = obj"
    "constraints (problem b) = caps @ concat reqs @ concat rcs @ concat ows @ pcs @ concat rls @ concat dps"
  using assms by (elim build_InrD) simp

lemma OwnerOne_in_model:
  assumes b: "build inp d = Inr b" and s: "s \<in> set (S inp)"
  shows "(''OwnerOne_'' @ s,
          LpConstraint (lpSum (map (\<lambda>i. expr_of_var (binary_var (Owner i s))) (devs b)))
             LpConstraintEQ (expr_of_var (binary_var (Z s))))
         \<in> set (constraints (problem b))"
proof -
  from b obtain ows where
    o: "comprehension (Owner_constraints inp (devs b)) (S inp) = Inr ows" and
    sub: "set (concat ows) \<subseteq> set (constraints (problem b))"
    by (elim constraints_parts) auto
  from comprehension_mem[OF o s] obtain cs where
    cs: "cs \<in> set ows" and e: "Owner_constraints inp (devs b) s = Inr cs" by blast
  from e obtain os zs hs where
    os: "comprehension (\<lambda>i. var_at (owner_dict inp) (i, s)) (devs b) = Inr os" and
    zs: "var_at (z_dict inp) s = Inr zs" and
    c: "cs = (''OwnerOne_'' @ s, LpConstraint (lpSum os) LpConstraintEQ zs) # hs"
    unfolding Owner_constraints_def raise_bind_Inr_iff by blast
  have "os = map (\<lambda>i. expr_of_var (binary_var (Owner i s))) (devs b)"
  proof (rule comprehension_eq_map[OF os])
    fix k assume "k \<in> set (devs b)"
    then have "k \<in> set (I inp)" by (simp add: devs_subset_I[OF b])
    with s show "var_at (owner_dict inp) (k, s) = Inr (expr_of_var (binary_var (Owner k s)))"
      by (simp add: var_at_Inr_iff owner_dict_eq)
  qed
  moreover have "zs = expr_of_var (binary_var (Z s))"
    using zs s by (simp add: var_at_Inr_iff z_dict_eq)
  ultimately have "(''OwnerOne_'' @ s,
          LpConstraint (lpSum (map (\<lambda>i. expr_of_var (binary_var (Owner i s))) (devs b)))
             LpConstraintEQ (expr_of_var (binary_var (Z s)))) \<in> set cs"
    using c by simp
  with cs sub show ?thesis by auto
qed

lemma var_id_binary [simp]: "var_id (binary_var w) = w"
  by (simp add: binary_var_def)

lemma var_id_continuous [simp]: "var_id (continuous_var w) = w"
  by (simp add: continuous_var_def)

subsection \<open>Single ownership\<close>

text \<open>
  Claim C5. In every feasible assignment of the constructed problem, the developers
  are the people of role BE or FE, the selection flag of an eligible story is 0 or
  1, a selected story has exactly one developer whose owner flag is 1, and an
  unselected story has none.
\<close>

theorem single_ownership:
  assumes c: "construct inp = Inr b" and f: "feasible v (problem b)" and s: "s \<in> set (S inp)"
  shows "set (devs b) = {i \<in> set (I inp). role_of inp i = Some ''BE'' \<or> role_of inp i = Some ''FE''} \<and>
         (v (Z s) = 0 \<or> v (Z s) = 1) \<and>
         (v (Z s) = 1 \<longrightarrow> (\<exists>!i. i \<in> set (devs b) \<and> v (Owner i s) = 1)) \<and>
         (v (Z s) = 0 \<longrightarrow> (\<forall>i \<in> set (devs b). v (Owner i s) = 0))"
proof -
  from c obtain d where b: "build inp d = Inr b" by (rule construct_InrD)
  let ?nc = "(''OwnerOne_'' @ s,
          LpConstraint (lpSum (map (\<lambda>i. expr_of_var (binary_var (Owner i s))) (devs b)))
             LpConstraintEQ (expr_of_var (binary_var (Z s))))"
  have mem: "?nc \<in> set (constraints (problem b))" by (rule OwnerOne_in_model[OF b s])
  from feasible_holds[OF f mem]
  have eq: "sum_list (map (\<lambda>i. v (Owner i s)) (devs b)) = v (Z s)"
    by (simp add: comp_def)
  have "binary_var (Z s) \<in> set (constraint_variables (snd ?nc))" by simp
  from feasible_domain[OF f mem this] have zb: "v (Z s) = 0 \<or> v (Z s) = 1"
    by (simp add: in_domain_binary)
  have ob: "\<forall>i \<in> set (devs b). v (Owner i s) = 0 \<or> v (Owner i s) = 1"
  proof
    fix i assume "i \<in> set (devs b)"
    then have "binary_var (Owner i s) \<in> set (constraint_variables (snd ?nc))" by auto
    from feasible_domain[OF f mem this] show "v (Owner i s) = 0 \<or> v (Owner i s) = 1"
      by (simp add: in_domain_binary)
  qed
  have one: "v (Z s) = 1 \<longrightarrow> (\<exists>!i. i \<in> set (devs b) \<and> v (Owner i s) = 1)"
    using binary_sum_one[OF ob] eq by simp
  have zero: "v (Z s) = 0 \<longrightarrow> (\<forall>i \<in> set (devs b). v (Owner i s) = 0)"
    using binary_sum_zero[OF ob] eq by simp
  have "set (devs b) = {i \<in> set (I inp). role_of inp i = Some ''BE'' \<or> role_of inp i = Some ''FE''}"
    by (auto simp: devs_subset_I[OF b])
  with zb one zero show ?thesis by blast
qed

lemma example_construct: "construct example_input = Inr (projr (construct example_input))"
proof -
  have "\<not> isl (construct example_input)" by code_simp
  then show ?thesis by simp
qed

lemma example_feasible: "feasible example_values (problem (projr (construct example_input)))"
  by code_simp

theorem single_ownership_witness:
  "construct example_input = Inr (projr (construct example_input)) \<and>
   feasible example_values (problem (projr (construct example_input))) \<and>
   ''s1'' \<in> set (S example_input) \<and>
   example_values (Z ''s1'') = 1 \<and>
   (\<exists>!i. i \<in> set (devs (projr (construct example_input))) \<and> example_values (Owner i ''s1'') = 1) \<and>
   ''s4'' \<in> set (S example_input) \<and>
   example_values (Z ''s4'') = 0 \<and>
   example_values (Owner ''ana'' ''s4'') = 0"
proof -
  have s1: "''s1'' \<in> set (S example_input)" and s4: "''s4'' \<in> set (S example_input)"
    by (simp_all add: example_S)
  have z1: "example_values (Z ''s1'') = 1" and z4: "example_values (Z ''s4'') = 0"
    by (simp_all add: example_values_def)
  have o4: "example_values (Owner ''ana'' ''s4'') = 0"
    by (simp add: example_values_def)
  from single_ownership[OF example_construct example_feasible s1] z1
  have "\<exists>!i. i \<in> set (devs (projr (construct example_input))) \<and> example_values (Owner i ''s1'') = 1"
    by blast
  with example_construct example_feasible s1 s4 z1 z4 o4 show ?thesis by blast
qed

subsection \<open>Release of active developers\<close>

lemma sum_list_all_zero:
  fixes f :: "'a \<Rightarrow> real"
  shows "\<forall>x \<in> set xs. f x = 0 \<Longrightarrow> sum_list (map f xs) = 0"
  by (induction xs) auto

lemma Rel_in_model:
  assumes b: "build inp d = Inr b" and i: "i \<in> set (devs b)"
  shows "(''RelLink_'' @ i,
          LpConstraint (expr_of_var (binary_var (Rel i))) LpConstraintLE
            (lpSum (map (\<lambda>s. expr_of_var (binary_var (Owner i s))) (S inp))))
         \<in> set (constraints (problem b))"
    and "(''RelActive_'' @ i,
          LpConstraint (expr_of_var (binary_var (Rel i))) LpConstraintGE
            (expr_of_var (binary_var (Y i))))
         \<in> set (constraints (problem b))"
proof -
  from b obtain rls where
    o: "comprehension (Rel_constraints inp) (devs b) = Inr rls" and
    sub: "set (concat rls) \<subseteq> set (constraints (problem b))"
    by (elim constraints_parts) auto
  from comprehension_mem[OF o i] obtain cs where
    cs: "cs \<in> set rls" and e: "Rel_constraints inp i = Inr cs" by blast
  have iI: "i \<in> set (I inp)" using i by (simp add: devs_subset_I[OF b])
  from e obtain ri os ri' yi where
    ri: "var_at (rel_dict inp) i = Inr ri" and
    os: "comprehension (\<lambda>s. var_at (owner_dict inp) (i, s)) (S inp) = Inr os" and
    ri': "var_at (rel_dict inp) i = Inr ri'" and
    yi: "var_at (y_dict inp) i = Inr yi" and
    c: "cs = [(''RelLink_'' @ i, LpConstraint ri LpConstraintLE (lpSum os)),
              (''RelActive_'' @ i, LpConstraint ri' LpConstraintGE yi)]"
    unfolding Rel_constraints_def raise_bind_Inr_iff by blast
  have "os = map (\<lambda>s. expr_of_var (binary_var (Owner i s))) (S inp)"
    by (rule comprehension_eq_map[OF os]) (simp add: var_at_Inr_iff owner_dict_eq iI)
  moreover have "ri = expr_of_var (binary_var (Rel i))" "ri' = expr_of_var (binary_var (Rel i))"
    using ri ri' iI by (simp_all add: var_at_Inr_iff rel_dict_eq)
  moreover have "yi = expr_of_var (binary_var (Y i))"
    using yi iI by (simp add: var_at_Inr_iff y_dict_eq)
  ultimately have
    "(''RelLink_'' @ i,
          LpConstraint (expr_of_var (binary_var (Rel i))) LpConstraintLE
            (lpSum (map (\<lambda>s. expr_of_var (binary_var (Owner i s))) (S inp)))) \<in> set cs"
    "(''RelActive_'' @ i,
          LpConstraint (expr_of_var (binary_var (Rel i))) LpConstraintGE
            (expr_of_var (binary_var (Y i)))) \<in> set cs"
    using c by simp_all
  with cs sub show
    "(''RelLink_'' @ i,
          LpConstraint (expr_of_var (binary_var (Rel i))) LpConstraintLE
            (lpSum (map (\<lambda>s. expr_of_var (binary_var (Owner i s))) (S inp))))
         \<in> set (constraints (problem b))"
    "(''RelActive_'' @ i,
          LpConstraint (expr_of_var (binary_var (Rel i))) LpConstraintGE
            (expr_of_var (binary_var (Y i))))
         \<in> set (constraints (problem b))"
    by auto
qed

text \<open>
  Claim C6. In every feasible assignment of the constructed problem and for every
  developer \<open>i\<close>: the released flag is at most the sum of the developer's owner
  flags over the eligible stories, hence at most the number of eligible stories the
  developer owns, and at least the active flag; an active developer is released and
  owns an eligible story.
\<close>

theorem release_of_active_developers:
  assumes c: "construct inp = Inr b" and f: "feasible v (problem b)" and i: "i \<in> set (devs b)"
  shows "v (Rel i) \<le> sum_list (map (\<lambda>s. v (Owner i s)) (S inp)) \<and>
         v (Rel i) \<le> of_nat (card {s \<in> set (S inp). v (Owner i s) = 1}) \<and>
         v (Y i) \<le> v (Rel i) \<and>
         (v (Y i) = 1 \<longrightarrow> v (Rel i) = 1 \<and> (\<exists>s \<in> set (S inp). v (Owner i s) = 1))"
proof -
  from c obtain d where b: "build inp d = Inr b" by (rule construct_InrD)
  let ?link = "(''RelLink_'' @ i,
          LpConstraint (expr_of_var (binary_var (Rel i))) LpConstraintLE
            (lpSum (map (\<lambda>s. expr_of_var (binary_var (Owner i s))) (S inp))))"
  let ?act = "(''RelActive_'' @ i,
          LpConstraint (expr_of_var (binary_var (Rel i))) LpConstraintGE
            (expr_of_var (binary_var (Y i))))"
  have ml: "?link \<in> set (constraints (problem b))" and ma: "?act \<in> set (constraints (problem b))"
    by (rule Rel_in_model[OF b i])+
  from feasible_holds[OF f ml]
  have le: "v (Rel i) \<le> sum_list (map (\<lambda>s. v (Owner i s)) (S inp))"
    by (simp add: comp_def)
  from feasible_holds[OF f ma] have ge: "v (Y i) \<le> v (Rel i)" by simp
  have "binary_var (Rel i) \<in> set (constraint_variables (snd ?act))" by simp
  from feasible_domain[OF f ma this] have rb: "v (Rel i) = 0 \<or> v (Rel i) = 1"
    by (simp add: in_domain_binary)
  have ob: "\<forall>s \<in> set (S inp). v (Owner i s) = 0 \<or> v (Owner i s) = 1"
  proof
    fix s assume "s \<in> set (S inp)"
    then have "binary_var (Owner i s) \<in> set (constraint_variables (snd ?link))" by auto
    from feasible_domain[OF f ml this] show "v (Owner i s) = 0 \<or> v (Owner i s) = 1"
      by (simp add: in_domain_binary)
  qed
  have own: "\<exists>s \<in> set (S inp). v (Owner i s) = 1" if "v (Rel i) = 1"
  proof (rule ccontr)
    assume "\<not> (\<exists>s \<in> set (S inp). v (Owner i s) = 1)"
    with ob have "\<forall>s \<in> set (S inp). v (Owner i s) = 0" by blast
    then have "sum_list (map (\<lambda>s. v (Owner i s)) (S inp)) = 0" by (rule sum_list_all_zero)
    with le that show False by simp
  qed
  have crd: "v (Rel i) \<le> of_nat (card {s \<in> set (S inp). v (Owner i s) = 1})"
  proof (cases "v (Rel i) = 1")
    case True
    from own[OF True] have "{s \<in> set (S inp). v (Owner i s) = 1} \<noteq> {}" by blast
    then have "card {s \<in> set (S inp). v (Owner i s) = 1} \<ge> 1"
      by (simp add: Suc_le_eq card_gt_0_iff)
    with True show ?thesis by simp
  next
    case False
    with rb have "v (Rel i) = 0" by simp
    then show ?thesis by simp
  qed
  have act: "v (Y i) = 1 \<longrightarrow> v (Rel i) = 1 \<and> (\<exists>s \<in> set (S inp). v (Owner i s) = 1)"
  proof
    assume "v (Y i) = 1"
    with ge rb have "v (Rel i) = 1" by auto
    with own show "v (Rel i) = 1 \<and> (\<exists>s \<in> set (S inp). v (Owner i s) = 1)" by simp
  qed
  from le crd ge act show ?thesis by blast
qed

theorem release_of_active_developers_witness:
  "construct example_input = Inr (projr (construct example_input)) \<and>
   feasible example_values (problem (projr (construct example_input))) \<and>
   ''bob'' \<in> set (devs (projr (construct example_input))) \<and>
   example_values (Y ''bob'') = 1 \<and>
   example_values (Rel ''bob'') = 1 \<and>
   (\<exists>s \<in> set (S example_input). example_values (Owner ''bob'' s) = 1)"
proof -
  have d: "''bob'' \<in> set (devs (projr (construct example_input)))" by code_simp
  have y: "example_values (Y ''bob'') = 1" by (simp add: example_values_def)
  from release_of_active_developers[OF example_construct example_feasible d] y
  have "example_values (Rel ''bob'') = 1 \<and> (\<exists>s \<in> set (S example_input). example_values (Owner ''bob'' s) = 1)"
    by blast
  with example_construct example_feasible d y show ?thesis by blast
qed

subsection \<open>Dependency precedence\<close>

lemma deps_fst_S: "(s, p) \<in> set (deps inp) \<Longrightarrow> s \<in> set (S inp)"
  by (auto simp: deps_def deps_of_row_def S_def eligible_def Let_def split: if_splits)

text \<open>
  Claim C7. For every recorded dependency pair \<open>(s, p)\<close> whose predecessor is
  eligible, the constructed problem contains the constraint \<open>z[s] \<le> z[p]\<close>, and
  in every feasible assignment \<open>s\<close> is selected only if \<open>p\<close> is.
\<close>

theorem dependency_precedence:
  assumes c: "construct inp = Inr b" and sp: "(s, p) \<in> set (deps inp)" and p: "p \<in> set (S inp)"
  shows "(''Dep_'' @ s @ ''_on_'' @ p,
          LpConstraint (expr_of_var (binary_var (Z s))) LpConstraintLE (expr_of_var (binary_var (Z p))))
           \<in> set (constraints (problem b)) \<and>
         (\<forall>v. feasible v (problem b) \<longrightarrow> v (Z s) \<le> v (Z p) \<and> (v (Z s) = 1 \<longrightarrow> v (Z p) = 1))"
proof -
  from c obtain d where b: "build inp d = Inr b" by (rule construct_InrD)
  let ?nc = "(''Dep_'' @ s @ ''_on_'' @ p,
          LpConstraint (expr_of_var (binary_var (Z s))) LpConstraintLE (expr_of_var (binary_var (Z p))))"
  from b obtain dps where
    o: "comprehension (Dep_constraint inp) (deps inp) = Inr dps" and
    sub: "set (concat dps) \<subseteq> set (constraints (problem b))"
    by (elim constraints_parts) auto
  from comprehension_mem[OF o sp] obtain cs where
    cs: "cs \<in> set dps" and e: "Dep_constraint inp (s, p) = Inr cs" by blast
  have s: "s \<in> set (S inp)" by (rule deps_fst_S[OF sp])
  from e p obtain zs zp where
    zs: "var_at (z_dict inp) s = Inr zs" and zp: "var_at (z_dict inp) p = Inr zp" and
    c': "cs = [(''Dep_'' @ s @ ''_on_'' @ p, LpConstraint zs LpConstraintLE zp)]"
    unfolding Dep_constraint_def by (auto simp: raise_bind_Inr_iff)
  have "zs = expr_of_var (binary_var (Z s))" "zp = expr_of_var (binary_var (Z p))"
    using zs zp s p by (simp_all add: var_at_Inr_iff z_dict_eq)
  with c' have "?nc \<in> set cs" by simp
  with cs have "?nc \<in> set (concat dps)" by (simp only: set_concat) blast
  with sub have mem: "?nc \<in> set (constraints (problem b))" by blast
  have "v (Z s) \<le> v (Z p) \<and> (v (Z s) = 1 \<longrightarrow> v (Z p) = 1)" if f: "feasible v (problem b)" for v
  proof -
    from feasible_holds[OF f mem] have le: "v (Z s) \<le> v (Z p)" by simp
    have "binary_var (Z p) \<in> set (constraint_variables (snd ?nc))" by simp
    from feasible_domain[OF f mem this] have "v (Z p) = 0 \<or> v (Z p) = 1"
      by (simp add: in_domain_binary)
    with le show ?thesis by auto
  qed
  with mem show ?thesis by blast
qed

theorem dependency_precedence_witness:
  "construct example_input = Inr (projr (construct example_input)) \<and>
   (''s2'', ''s1'') \<in> set (deps example_input) \<and>
   ''s1'' \<in> set (S example_input) \<and>
   (''Dep_s2_on_s1'',
      LpConstraint (expr_of_var (binary_var (Z ''s2''))) LpConstraintLE (expr_of_var (binary_var (Z ''s1''))))
     \<in> set (constraints (problem (projr (construct example_input)))) \<and>
   feasible example_values (problem (projr (construct example_input))) \<and>
   example_values (Z ''s2'') \<le> example_values (Z ''s1'')"
proof -
  have sp: "(''s2'', ''s1'') \<in> set (deps example_input)" by code_simp
  have p: "''s1'' \<in> set (S example_input)" by (simp add: example_S)
  from dependency_precedence[OF example_construct sp p] example_feasible
  have "(''Dep_'' @ ''s2'' @ ''_on_'' @ ''s1'',
      LpConstraint (expr_of_var (binary_var (Z ''s2''))) LpConstraintLE (expr_of_var (binary_var (Z ''s1''))))
     \<in> set (constraints (problem (projr (construct example_input))))"
    and "example_values (Z ''s2'') \<le> example_values (Z ''s1'')"
    by blast+
  with example_construct example_feasible sp p show ?thesis by simp
qed

subsection \<open>The variables of the constructed problem\<close>

lemma comprehension_expr_vars:
  assumes "comprehension f ks = Inr es"
    and "\<And>k e. k \<in> set ks \<Longrightarrow> f k = Inr e \<Longrightarrow> expr_vars e \<subseteq> A"
  shows "expr_vars (lpSum es) \<subseteq> A"
proof -
  have "expr_vars e \<subseteq> A" if "e \<in> set es" for e
    using comprehension_mem_rev[OF assms(1) that] assms(2) by blast
  then show ?thesis by auto
qed

lemma comprehension_constraint_vars:
  assumes "comprehension f ks = Inr css"
    and "\<And>k cs. k \<in> set ks \<Longrightarrow> f k = Inr cs \<Longrightarrow> \<forall>nc \<in> set cs. set (constraint_variables (snd nc)) \<subseteq> A"
  shows "\<forall>nc \<in> set (concat css). set (constraint_variables (snd nc)) \<subseteq> A"
proof
  fix nc assume "nc \<in> set (concat css)"
  then obtain cs where cs: "cs \<in> set css" and nc: "nc \<in> set cs" by auto
  from comprehension_mem_rev[OF assms(1) cs] obtain k where "k \<in> set ks" "f k = Inr cs" by blast
  with assms(2) nc show "set (constraint_variables (snd nc)) \<subseteq> A" by blast
qed

lemma comprehension_constraint_vars1:
  assumes "comprehension f ks = Inr cs"
    and "\<And>k nc. k \<in> set ks \<Longrightarrow> f k = Inr nc \<Longrightarrow> set (constraint_variables (snd nc)) \<subseteq> A"
  shows "\<forall>nc \<in> set cs. set (constraint_variables (snd nc)) \<subseteq> A"
  using comprehension_mem_rev[OF assms(1)] assms(2) by blast

lemma var_at_x_vars:
  "var_at (x_dict inp) k = Inr e \<Longrightarrow> expr_vars e \<subseteq> Collect (model_var inp dv)"
  by (auto simp: var_at_Inr_iff x_dict_eq model_var_def split: if_splits)

lemma var_at_z_vars:
  "var_at (z_dict inp) s = Inr e \<Longrightarrow> expr_vars e \<subseteq> Collect (model_var inp dv)"
  by (auto simp: var_at_Inr_iff z_dict_eq model_var_def split: if_splits)

lemma var_at_y_vars:
  "var_at (y_dict inp) i = Inr e \<Longrightarrow> expr_vars e \<subseteq> Collect (model_var inp dv)"
  by (auto simp: var_at_Inr_iff y_dict_eq model_var_def split: if_splits)

lemma var_at_owner_vars:
  "var_at (owner_dict inp) (i, s) = Inr e \<Longrightarrow> i \<in> set dv \<Longrightarrow> expr_vars e \<subseteq> Collect (model_var inp dv)"
  by (auto simp: var_at_Inr_iff owner_dict_eq model_var_def split: if_splits)

lemma var_at_rel_vars:
  "var_at (rel_dict inp) i = Inr e \<Longrightarrow> i \<in> set dv \<Longrightarrow> expr_vars e \<subseteq> Collect (model_var inp dv)"
  by (auto simp: var_at_Inr_iff rel_dict_eq model_var_def split: if_splits)

lemma objective_vars:
  assumes "objective_expr inp = Inr obj"
  shows "expr_vars obj \<subseteq> Collect (model_var inp dv)"
proof -
  from assms obtain vs ys where
    vs: "comprehension
        (\<lambda>s. raise_bind (getitem (value_of inp) s) (\<lambda>v.
              raise_bind (var_at (z_dict inp) s) (\<lambda>zs. Inr (expr_scale v zs))))
        (S inp) = Inr vs" and
    ys: "comprehension (var_at (y_dict inp)) (I inp) = Inr ys" and
    obj: "obj = expr_sub (lpSum vs) (expr_scale (lambda_people inp) (lpSum ys))"
    unfolding objective_expr_def raise_bind_Inr_iff by blast
  have "expr_vars (lpSum vs) \<subseteq> Collect (model_var inp dv)"
  proof (rule comprehension_expr_vars[OF vs])
    fix k e
    assume "raise_bind (getitem (value_of inp) k) (\<lambda>v.
              raise_bind (var_at (z_dict inp) k) (\<lambda>zs. Inr (expr_scale v zs))) = Inr e"
    then obtain v zs where zs: "var_at (z_dict inp) k = Inr zs" and e: "e = expr_scale v zs"
      unfolding raise_bind_Inr_iff by blast
    from var_at_z_vars[OF zs, of dv] show "expr_vars e \<subseteq> Collect (model_var inp dv)"
      unfolding e by simp
  qed
  moreover have "expr_vars (lpSum ys) \<subseteq> Collect (model_var inp dv)"
    by (rule comprehension_expr_vars[OF ys]) (rule var_at_y_vars)
  ultimately show ?thesis unfolding obj by simp
qed

lemma Cap_vars:
  assumes "Cap_constraint inp i = Inr nc"
  shows "set (constraint_variables (snd nc)) \<subseteq> Collect (model_var inp dv)"
proof -
  from assms obtain xs c yi where
    xs: "comprehension (\<lambda>s. var_at (x_dict inp) (i, s)) (S inp) = Inr xs" and
    yi: "var_at (y_dict inp) i = Inr yi" and
    nc: "nc = (''Cap_'' @ i, LpConstraint (lpSum xs) LpConstraintLE (expr_scale c yi))"
    unfolding Cap_constraint_def raise_bind_Inr_iff by blast
  have "expr_vars (lpSum xs) \<subseteq> Collect (model_var inp dv)"
    by (rule comprehension_expr_vars[OF xs]) (rule var_at_x_vars)
  with var_at_y_vars[OF yi, of dv] show ?thesis unfolding nc by simp
qed

lemma Req_vars:
  assumes "Req_constraint inp d sr = Inr cs"
  shows "\<forall>nc \<in> set cs. set (constraint_variables (snd nc)) \<subseteq> Collect (model_var inp dv)"
proof (cases "I_by_role d (snd sr)")
  case None
  with assms show ?thesis by (simp add: Req_constraint_def)
next
  case (Some l)
  with assms obtain xs q zs where
    xs: "comprehension (\<lambda>i. var_at (x_dict inp) (i, fst sr)) l = Inr xs" and
    zs: "var_at (z_dict inp) (fst sr) = Inr zs" and
    cs: "cs = [(''Req_'' @ snd sr @ ''_'' @ fst sr,
                LpConstraint (lpSum xs) LpConstraintGE (expr_scale q zs))]"
    unfolding Req_constraint_def by (auto simp: raise_bind_Inr_iff)
  have "expr_vars (lpSum xs) \<subseteq> Collect (model_var inp dv)"
    by (rule comprehension_expr_vars[OF xs]) (rule var_at_x_vars)
  with var_at_z_vars[OF zs, of dv] show ?thesis unfolding cs by simp
qed

lemma RoleCap_vars:
  assumes "RoleCap_constraint inp d r = Inr cs"
  shows "\<forall>nc \<in> set cs. set (constraint_variables (snd nc)) \<subseteq> Collect (model_var inp dv)"
proof (cases "I_by_role d r")
  case None
  with assms show ?thesis by (simp add: RoleCap_constraint_def)
next
  case (Some l)
  with assms obtain xs c where
    xs: "comprehension (\<lambda>si. var_at (x_dict inp) (snd si, fst si)) (List.product (S inp) l) = Inr xs" and
    cs: "cs = [(''RoleCap_'' @ r, LpConstraint (lpSum xs) LpConstraintLE (expr_of_const c))]"
    unfolding RoleCap_constraint_def by (auto simp: raise_bind_Inr_iff)
  have "expr_vars (lpSum xs) \<subseteq> Collect (model_var inp dv)"
    by (rule comprehension_expr_vars[OF xs]) (rule var_at_x_vars)
  then show ?thesis unfolding cs by simp
qed

lemma OwnerHours_vars:
  assumes "OwnerHours_constraint inp s i = Inr nc" and "i \<in> set dv"
  shows "set (constraint_variables (snd nc)) \<subseteq> Collect (model_var inp dv)"
proof -
  from assms(1) obtain xv ov where
    xv: "var_at (x_dict inp) (i, s) = Inr xv" and
    ov: "var_at (owner_dict inp) (i, s) = Inr ov" and
    nc: "nc = (''OwnerHours_'' @ i @ ''_'' @ s,
          LpConstraint (lpSum [xv]) LpConstraintGE (expr_scale (theta_release_hours inp) ov))"
    unfolding OwnerHours_constraint_def raise_bind_Inr_iff by blast
  from var_at_x_vars[OF xv, of dv] var_at_owner_vars[OF ov assms(2)]
  show ?thesis unfolding nc by simp
qed

lemma Owner_vars:
  assumes "Owner_constraints inp dv s = Inr cs"
  shows "\<forall>nc \<in> set cs. set (constraint_variables (snd nc)) \<subseteq> Collect (model_var inp dv)"
proof -
  from assms obtain os zs hs where
    os: "comprehension (\<lambda>i. var_at (owner_dict inp) (i, s)) dv = Inr os" and
    zs: "var_at (z_dict inp) s = Inr zs" and
    hs: "comprehension (OwnerHours_constraint inp s) dv = Inr hs" and
    cs: "cs = (''OwnerOne_'' @ s, LpConstraint (lpSum os) LpConstraintEQ zs) # hs"
    unfolding Owner_constraints_def raise_bind_Inr_iff by blast
  have "expr_vars (lpSum os) \<subseteq> Collect (model_var inp dv)"
    by (rule comprehension_expr_vars[OF os]) (rule var_at_owner_vars)
  moreover have "\<forall>nc \<in> set hs. set (constraint_variables (snd nc)) \<subseteq> Collect (model_var inp dv)"
    by (rule comprehension_constraint_vars1[OF hs]) (rule OwnerHours_vars)
  ultimately show ?thesis using var_at_z_vars[OF zs, of dv] unfolding cs by simp
qed

lemma PointsCap_vars:
  assumes "PointsCap_constraint inp i = Inr nc" and "i \<in> set dv"
  shows "set (constraint_variables (snd nc)) \<subseteq> Collect (model_var inp dv)"
proof -
  from assms(1) obtain ps where
    ps: "comprehension
        (\<lambda>s. raise_bind (getitem (points inp) s) (\<lambda>p.
              raise_bind (var_at (owner_dict inp) (i, s)) (\<lambda>ov. Inr (expr_scale (of_int p) ov))))
        (S inp) = Inr ps" and
    nc: "nc = (''PointsCap_'' @ i,
          LpConstraint (lpSum ps) LpConstraintLE (expr_of_const (of_int (max_points_per_dev inp))))"
    unfolding PointsCap_constraint_def raise_bind_Inr_iff by blast
  have "expr_vars (lpSum ps) \<subseteq> Collect (model_var inp dv)"
  proof (rule comprehension_expr_vars[OF ps])
    fix k e
    assume "raise_bind (getitem (points inp) k) (\<lambda>p.
              raise_bind (var_at (owner_dict inp) (i, k)) (\<lambda>ov. Inr (expr_scale (of_int p) ov))) = Inr e"
    then obtain p ov where ov: "var_at (owner_dict inp) (i, k) = Inr ov"
      and e: "e = expr_scale (of_int p) ov"
      unfolding raise_bind_Inr_iff by blast
    from var_at_owner_vars[OF ov assms(2)] show "expr_vars e \<subseteq> Collect (model_var inp dv)"
      unfolding e by simp
  qed
  then show ?thesis unfolding nc by simp
qed

lemma Rel_vars:
  assumes "Rel_constraints inp i = Inr cs" and "i \<in> set dv"
  shows "\<forall>nc \<in> set cs. set (constraint_variables (snd nc)) \<subseteq> Collect (model_var inp dv)"
proof -
  from assms(1) obtain ri os ri' yi where
    ri: "var_at (rel_dict inp) i = Inr ri" and
    os: "comprehension (\<lambda>s. var_at (owner_dict inp) (i, s)) (S inp) = Inr os" and
    ri': "var_at (rel_dict inp) i = Inr ri'" and
    yi: "var_at (y_dict inp) i = Inr yi" and
    cs: "cs = [(''RelLink_'' @ i, LpConstraint ri LpConstraintLE (lpSum os)),
              (''RelActive_'' @ i, LpConstraint ri' LpConstraintGE yi)]"
    unfolding Rel_constraints_def raise_bind_Inr_iff by blast
  have "expr_vars (lpSum os) \<subseteq> Collect (model_var inp dv)"
    by (rule comprehension_expr_vars[OF os]) (rule var_at_owner_vars[OF _ assms(2)])
  with var_at_rel_vars[OF ri assms(2)] var_at_rel_vars[OF ri' assms(2)] var_at_y_vars[OF yi, of dv]
  show ?thesis unfolding cs by simp
qed

lemma Dep_vars:
  assumes "Dep_constraint inp sp = Inr cs"
  shows "\<forall>nc \<in> set cs. set (constraint_variables (snd nc)) \<subseteq> Collect (model_var inp dv)"
proof (cases "snd sp \<in> set (S inp)")
  case False
  with assms show ?thesis by (simp add: Dep_constraint_def)
next
  case True
  with assms obtain zs zp where
    zs: "var_at (z_dict inp) (fst sp) = Inr zs" and zp: "var_at (z_dict inp) (snd sp) = Inr zp" and
    cs: "cs = [(''Dep_'' @ fst sp @ ''_on_'' @ snd sp, LpConstraint zs LpConstraintLE zp)]"
    unfolding Dep_constraint_def by (auto simp: raise_bind_Inr_iff)
  from var_at_z_vars[OF zs, of dv] var_at_z_vars[OF zp, of dv] show ?thesis unfolding cs by simp
qed

lemma problem_variables:
  assumes b: "build inp d = Inr b"
  shows "set (variables (problem b)) \<subseteq> Collect (model_var inp (devs b))"
proof -
  let ?A = "Collect (model_var inp (devs b))"
  from b obtain obj caps reqs rcs ows pcs rls dps where
    p: "objective_expr inp = Inr obj"
    "comprehension (Cap_constraint inp) (I inp) = Inr caps"
    "comprehension (Req_constraint inp d) (List.product (S inp) fixed_roles) = Inr reqs"
    "comprehension (RoleCap_constraint inp d) fixed_roles = Inr rcs"
    "comprehension (Owner_constraints inp (devs b)) (S inp) = Inr ows"
    "comprehension (PointsCap_constraint inp) (devs b) = Inr pcs"
    "comprehension (Rel_constraints inp) (devs b) = Inr rls"
    "comprehension (Dep_constraint inp) (deps inp) = Inr dps"
    and o: "objective (problem b) = obj"
    and c: "constraints (problem b) = caps @ concat reqs @ concat rcs @ concat ows @ pcs @ concat rls @ concat dps"
    by (rule constraints_parts)
  have 0: "expr_vars obj \<subseteq> ?A" by (rule objective_vars[OF p(1)])
  have 1: "\<forall>nc \<in> set caps. set (constraint_variables (snd nc)) \<subseteq> ?A"
    by (rule comprehension_constraint_vars1[OF p(2)]) (rule Cap_vars)
  have 2: "\<forall>nc \<in> set (concat reqs). set (constraint_variables (snd nc)) \<subseteq> ?A"
    by (rule comprehension_constraint_vars[OF p(3)]) (rule Req_vars)
  have 3: "\<forall>nc \<in> set (concat rcs). set (constraint_variables (snd nc)) \<subseteq> ?A"
    by (rule comprehension_constraint_vars[OF p(4)]) (rule RoleCap_vars)
  have 4: "\<forall>nc \<in> set (concat ows). set (constraint_variables (snd nc)) \<subseteq> ?A"
    by (rule comprehension_constraint_vars[OF p(5)]) (rule Owner_vars)
  have 5: "\<forall>nc \<in> set pcs. set (constraint_variables (snd nc)) \<subseteq> ?A"
    by (rule comprehension_constraint_vars1[OF p(6)]) (rule PointsCap_vars)
  have 6: "\<forall>nc \<in> set (concat rls). set (constraint_variables (snd nc)) \<subseteq> ?A"
    by (rule comprehension_constraint_vars[OF p(7)]) (rule Rel_vars)
  have 7: "\<forall>nc \<in> set (concat dps). set (constraint_variables (snd nc)) \<subseteq> ?A"
    by (rule comprehension_constraint_vars[OF p(8)]) (rule Dep_vars)
  have "\<forall>nc \<in> set (constraints (problem b)). set (constraint_variables (snd nc)) \<subseteq> ?A"
    unfolding c set_append using 1 2 3 4 5 6 7 by blast
  with 0 o show ?thesis unfolding variables_set by blast
qed

subsection \<open>Owner variables\<close>

lemma built_dicts:
  assumes "build inp d = Inr b"
  shows "x_vars b = x_dict inp" "z_vars b = z_dict inp" "y_vars b = y_dict inp"
    "owner_vars b = owner_dict inp" "rel_vars b = rel_dict inp"
  using assms by (elim build_InrD; simp)+

lemma binary_var_inject [simp]: "binary_var w = binary_var w' \<longleftrightarrow> w = w'"
  by (auto simp: binary_var_def)

lemma binary_not_continuous [simp]: "binary_var w \<noteq> continuous_var w'" "continuous_var w' \<noteq> binary_var w"
  by (auto simp: binary_var_def continuous_var_def)

text \<open>
  Claim C9, as the code has it. The dictionary \<open>owner\<close> holds a variable for every
  pair of a person and an eligible story, whatever the person's role. Only the
  variables of developers are used: an owner variable that occurs in the objective or
  in a constraint of the constructed problem belongs to a person of role BE or FE.
\<close>

theorem owner_variables_used_for_developers_only:
  assumes c: "construct inp = Inr b"
  shows "(\<forall>i s. owner_vars b (i, s) =
             (if i \<in> set (I inp) \<and> s \<in> set (S inp) then Some (binary_var (Owner i s)) else None)) \<and>
         (\<forall>lv i s. lv \<in> set (variables (problem b)) \<longrightarrow> var_id lv = Owner i s \<longrightarrow>
             i \<in> set (I inp) \<and> (role_of inp i = Some ''BE'' \<or> role_of inp i = Some ''FE''))"
proof -
  from c obtain d where b: "build inp d = Inr b" by (rule construct_InrD)
  have 1: "\<forall>i s. owner_vars b (i, s) =
             (if i \<in> set (I inp) \<and> s \<in> set (S inp) then Some (binary_var (Owner i s)) else None)"
    by (simp add: built_dicts[OF b] owner_dict_eq)
  have 2: "i \<in> set (I inp) \<and> (role_of inp i = Some ''BE'' \<or> role_of inp i = Some ''FE'')"
    if lv: "lv \<in> set (variables (problem b))" and id: "var_id lv = Owner i s" for lv i s
  proof -
    from problem_variables[OF b] lv have "model_var inp (devs b) lv" by blast
    with id have "i \<in> set (devs b)" by (auto simp: model_var_def)
    then show ?thesis by (simp add: devs_subset_I[OF b])
  qed
  from 1 2 show ?thesis by blast
qed

theorem owner_variables_used_for_developers_only_witness:
  "construct example_input = Inr (projr (construct example_input)) \<and>
   owner_vars (projr (construct example_input)) (''bob'', ''s2'') = Some (binary_var (Owner ''bob'' ''s2'')) \<and>
   binary_var (Owner ''bob'' ''s2'') \<in> set (variables (problem (projr (construct example_input)))) \<and>
   (role_of example_input ''bob'' = Some ''BE'' \<or> role_of example_input ''bob'' = Some ''FE'')"
proof -
  have m: "binary_var (Owner ''bob'' ''s2'') \<in> set (variables (problem (projr (construct example_input))))"
    by code_simp
  have i: "''bob'' \<in> set (I example_input)" and s: "''s2'' \<in> set (S example_input)"
    by (simp_all add: example_I example_S)
  from owner_variables_used_for_developers_only[OF example_construct] i s
  have "owner_vars (projr (construct example_input)) (''bob'', ''s2'') = Some (binary_var (Owner ''bob'' ''s2''))"
    by simp
  moreover from owner_variables_used_for_developers_only[OF example_construct] m
  have "role_of example_input ''bob'' = Some ''BE'' \<or> role_of example_input ''bob'' = Some ''FE''"
    by (metis var_id_binary)
  ultimately show ?thesis using example_construct m by blast
qed

text \<open>
  The claim as the specification words it fails: cai has role QA, and the dictionary
  \<open>owner\<close> holds the variable of cai and story s1.
\<close>

theorem owner_variable_of_non_developer:
  "role_of example_input ''cai'' = Some ''QA'' \<and>
   \<not> isl (construct example_input) \<and>
   owner_vars (projr (construct example_input)) (''cai'', ''s1'') = Some (binary_var (Owner ''cai'' ''s1''))"
  by code_simp

subsection \<open>Stories with forbidden points\<close>

lemma forbidden_not_in_S:
  assumes dist: "distinct (S_all inp)" and st: "st \<in> set (story_rows inp)"
    and fb: "s_points st \<in> forbid_points inp"
  shows "s_story_id st \<notin> set (S inp)"
proof
  assume "s_story_id st \<in> set (S inp)"
  then obtain t where t: "t \<in> set (story_rows inp)" and el: "eligible inp t"
    and id: "s_story_id t = s_story_id st"
    by (auto simp: S_def)
  from dist have "inj_on s_story_id (set (story_rows inp))"
    by (simp add: S_all_def distinct_map)
  with t st id have "t = st" by (auto dest: inj_onD)
  with el fb show False by (simp add: eligible_def)
qed

lemma sel_of_story_rows:
  "sel_of_story inp b sol s = Inr rows \<Longrightarrow> \<forall>row \<in> set rows. fst row = s"
  by (auto simp: sel_of_story_def raise_bind_Inr_iff split: if_splits)

lemma sel_stories:
  assumes "sel inp b sol = Inr rows"
  shows "\<forall>row \<in> set rows. fst row \<in> set (S inp)"
proof
  fix row assume r: "row \<in> set rows"
  from assms obtain rs where
    c: "comprehension (sel_of_story inp b sol) (S inp) = Inr rs" and rows: "rows = concat rs"
    unfolding sel_def raise_bind_Inr_iff by blast
  from r rows obtain rw where rw: "rw \<in> set rs" and m: "row \<in> set rw" by auto
  from comprehension_mem_rev[OF c rw] obtain s where
    s: "s \<in> set (S inp)" and e: "sel_of_story inp b sol s = Inr rw" by blast
  from sel_of_story_rows[OF e] m s show "fst row \<in> set (S inp)" by simp
qed

lemma assign_of_pair_rows:
  "assign_of_pair inp b sol is = Inr rows \<Longrightarrow> \<forall>row \<in> set rows. fst (snd (snd row)) = snd is"
  by (auto simp: assign_of_pair_def raise_bind_Inr_iff split: if_splits option.splits)

lemma assign_stories:
  assumes "assign_rows inp b sol = Inr rows"
  shows "\<forall>row \<in> set rows. fst (snd (snd row)) \<in> set (S inp)"
proof
  fix row assume r: "row \<in> set rows"
  from assms obtain rs where
    c: "comprehension (assign_of_pair inp b sol) (List.product (I inp) (S inp)) = Inr rs"
    and rows: "rows = concat rs"
    unfolding assign_rows_def raise_bind_Inr_iff by blast
  from r rows obtain rw where rw: "rw \<in> set rs" and m: "row \<in> set rw" by auto
  from comprehension_mem_rev[OF c rw] obtain k where
    k: "k \<in> set (List.product (I inp) (S inp))" and e: "assign_of_pair inp b sol k = Inr rw" by blast
  from assign_of_pair_rows[OF e] m have "fst (snd (snd row)) = snd k" by simp
  with k show "fst (snd (snd row)) \<in> set (S inp)" by auto
qed

lemma write_outputs_views:
  assumes "write_outputs inp b sol = (out, err)"
  shows "(\<forall>rows. selected_stories_csv out = Some rows \<longrightarrow> sel inp b sol = Inr rows) \<and>
         (\<forall>rows. assignments_csv out = Some rows \<longrightarrow> assign_rows inp b sol = Inr rows)"
  using assms
  by (auto simp: write_outputs_def no_outputs_def Let_def split: sum.splits prod.splits)

text \<open>
  Claim C8. With distinct story identifiers, a story whose points are forbidden
  is not in \<open>S\<close>; the dictionaries \<open>z\<close>, \<open>x\<close> and \<open>owner\<close> hold no variable for
  it; no variable of the objective or of a constraint is about it; a dependency
  that names it as predecessor adds no constraint; and no row of the selection
  view or of the assignment view names it (the utilization view and the summary
  name no story).
\<close>

theorem forbidden_story_excluded:
  assumes c: "construct inp = Inr b" and dist: "distinct (S_all inp)"
    and st: "st \<in> set (story_rows inp)" and fb: "s_points st \<in> forbid_points inp"
  shows "s_story_id st \<notin> set (S inp) \<and>
         z_vars b (s_story_id st) = None \<and>
         (\<forall>i. x_vars b (i, s_story_id st) = None \<and> owner_vars b (i, s_story_id st) = None) \<and>
         (\<forall>lv \<in> set (variables (problem b)). story_of (var_id lv) \<noteq> Some (s_story_id st)) \<and>
         (\<forall>s. Dep_constraint inp (s, s_story_id st) = Inr []) \<and>
         (\<forall>sol out err. write_outputs inp b sol = (out, err) \<longrightarrow>
            (\<forall>rows. selected_stories_csv out = Some rows \<longrightarrow>
               (\<forall>row \<in> set rows. fst row \<noteq> s_story_id st)) \<and>
            (\<forall>rows. assignments_csv out = Some rows \<longrightarrow>
               (\<forall>row \<in> set rows. fst (snd (snd row)) \<noteq> s_story_id st)))"
proof -
  from c obtain d where b: "build inp d = Inr b" by (rule construct_InrD)
  have n: "s_story_id st \<notin> set (S inp)" by (rule forbidden_not_in_S[OF dist st fb])
  have 1: "z_vars b (s_story_id st) = None"
    using n by (simp add: built_dicts[OF b] z_dict_eq)
  have 2: "\<forall>i. x_vars b (i, s_story_id st) = None \<and> owner_vars b (i, s_story_id st) = None"
    using n by (simp add: built_dicts[OF b] x_dict_eq owner_dict_eq)
  have 3: "\<forall>lv \<in> set (variables (problem b)). story_of (var_id lv) \<noteq> Some (s_story_id st)"
  proof
    fix lv assume "lv \<in> set (variables (problem b))"
    with problem_variables[OF b] have "model_var inp (devs b) lv" by blast
    with n show "story_of (var_id lv) \<noteq> Some (s_story_id st)"
      by (auto simp: model_var_def)
  qed
  have 4: "\<forall>s. Dep_constraint inp (s, s_story_id st) = Inr []"
    using n by (simp add: Dep_constraint_def)
  have 5: "(\<forall>rows. selected_stories_csv out = Some rows \<longrightarrow>
               (\<forall>row \<in> set rows. fst row \<noteq> s_story_id st)) \<and>
            (\<forall>rows. assignments_csv out = Some rows \<longrightarrow>
               (\<forall>row \<in> set rows. fst (snd (snd row)) \<noteq> s_story_id st))"
    if w: "write_outputs inp b sol = (out, err)" for sol out err
  proof -
    from write_outputs_views[OF w] have
      a: "\<forall>rows. selected_stories_csv out = Some rows \<longrightarrow> sel inp b sol = Inr rows" and
      b': "\<forall>rows. assignments_csv out = Some rows \<longrightarrow> assign_rows inp b sol = Inr rows"
      by blast+
    show ?thesis
    proof (intro conjI allI impI ballI)
      fix rows row assume "selected_stories_csv out = Some rows" "row \<in> set rows"
      with a sel_stories[of inp b sol rows] have "fst row \<in> set (S inp)" by blast
      with n show "fst row \<noteq> s_story_id st" by auto
    next
      fix rows row assume "assignments_csv out = Some rows" "row \<in> set rows"
      with b' assign_stories[of inp b sol rows] have "fst (snd (snd row)) \<in> set (S inp)" by blast
      with n show "fst (snd (snd row)) \<noteq> s_story_id st" by auto
    qed
  qed
  from n 1 2 3 4 5 show ?thesis by blast
qed

theorem forbidden_story_excluded_witness:
  "construct example_input = Inr (projr (construct example_input)) \<and>
   distinct (S_all example_input) \<and>
   story_rows example_input ! 2 \<in> set (story_rows example_input) \<and>
   s_points (story_rows example_input ! 2) \<in> forbid_points example_input \<and>
   s_story_id (story_rows example_input ! 2) = ''s3'' \<and>
   ''s3'' \<notin> set (S example_input) \<and>
   z_vars (projr (construct example_input)) ''s3'' = None \<and>
   Dep_constraint example_input (''s4'', ''s3'') = Inr []"
proof -
  let ?st = "story_rows example_input ! 2"
  have d: "distinct (S_all example_input)" by (simp add: S_all_def example_input_def)
  have m: "?st \<in> set (story_rows example_input)" by (simp add: example_input_def)
  have f: "s_points ?st \<in> forbid_points example_input"
    by (simp add: example_input_def forbid_points_def)
  have i: "s_story_id ?st = ''s3''" by (simp add: example_input_def)
  from forbidden_story_excluded[OF example_construct d m f]
  have "s_story_id ?st \<notin> set (S example_input)"
    and "z_vars (projr (construct example_input)) (s_story_id ?st) = None"
    and "Dep_constraint example_input (''s4'', s_story_id ?st) = Inr []"
    by blast+
  with example_construct d m f i show ?thesis by simp
qed

subsection \<open>Solve outcomes and the output views\<close>

lemma comprehension_raises:
  "k \<in> set ks \<Longrightarrow> isl (f k) \<Longrightarrow> isl (comprehension f ks)"
proof (induction ks)
  case Nil
  then show ?case by simp
next
  case (Cons a ks)
  show ?case
  proof (cases "f a")
    case (Inl e)
    then show ?thesis by simp
  next
    case (Inr y)
    with Cons.prems have "k \<in> set ks" by auto
    from Cons.IH[OF this Cons.prems(2)] obtain e where "comprehension f ks = Inl e"
      by (cases "comprehension f ks") auto
    with Inr show ?thesis by simp
  qed
qed

lemma util_of_person_zero_capacity:
  assumes "cap_i inp i = Some 0"
  shows "isl (util_of_person inp b sol i)"
proof (cases "for_loop (used_add b sol i) 0 (S inp)")
  case (Inl e)
  then show ?thesis by (simp add: util_of_person_def)
next
  case (Inr used)
  show ?thesis
  proof (cases "getitem (role_of inp) i")
    case (Inl e)
    with Inr show ?thesis by (simp add: util_of_person_def)
  next
    case r: (Inr r)
    from assms have "getitem (cap_i inp) i = Inr 0" by (simp add: getitem_def)
    with Inr r show ?thesis by (simp add: util_of_person_def py_div_def)
  qed
qed

text \<open>
  With a person of capacity 0 the utilization view raises whatever the solver
  answers, so neither that view nor the summary is written.
\<close>

lemma zero_capacity_never_completes:
  assumes i: "i \<in> set (I inp)" and c: "cap_i inp i = Some 0"
  shows "snd (write_outputs inp b sol) \<noteq> None \<and>
         person_utilization_csv (fst (write_outputs inp b sol)) = None \<and>
         summary_txt (fst (write_outputs inp b sol)) = None"
proof -
  have "isl (util inp b sol)"
    unfolding util_def
    by (rule comprehension_raises[OF i]) (rule util_of_person_zero_capacity[OF c])
  then obtain e where "util inp b sol = Inl e" by (cases "util inp b sol") auto
  then show ?thesis
    by (auto simp: write_outputs_def no_outputs_def Let_def split: sum.splits prod.splits)
qed

text \<open>
  Where nobody has capacity 0 the script does what the claim says: on the running
  example an infeasible outcome with every variable of the problem at 0 gives the
  two empty views, three utilization rows of zeros and the status in the summary.
\<close>

lemma infeasible_outcome_example:
  "run (assign_values (- 1) (\<lambda>w. 0)) example_input =
     (\<lparr> selected_stories_csv = Some [], assignments_csv = Some [],
        person_utilization_csv =
          Some [(''ana'', ''BE'', 0, 10, 0, 0, 0), (''bob'', ''FE'', 0, 10, 0, 0, 0),
                (''cai'', ''QA'', 0, 10, 0, 0, 0)],
        summary_txt =
          Some [Status ''Infeasible'', Objective 0, Delivered_value 0, Active_people 0,
                Stories_selected 0 3, Dependencies_respected 2,
                Parameters 2 1 1 8 1 (4 / 5)] \<rparr>,
      None)"
  by code_simp

lemma infeasible_construct:
  "construct infeasible_input = Inr (projr (construct infeasible_input))"
proof -
  have "\<not> isl (construct infeasible_input)" by code_simp
  then show ?thesis by simp
qed

lemma infeasible_problem:
  "\<not> feasible v (problem (projr (construct infeasible_input)))"
proof
  assume f: "feasible v (problem (projr (construct infeasible_input)))"
  let ?nc = "(''RoleCap_BE'',
      LpConstraint (lpSum [expr_of_var (continuous_var (X ''ana'' ''s1''))]) LpConstraintLE
        (expr_of_const (- 1)))"
  have mem: "?nc \<in> set (constraints (problem (projr (construct infeasible_input))))"
    by code_simp
  from feasible_holds[OF f mem] have le: "v (X ''ana'' ''s1'') \<le> - 1" by simp
  have "continuous_var (X ''ana'' ''s1'') \<in> set (constraint_variables (snd ?nc))" by simp
  from feasible_domain[OF f mem this] have "0 \<le> v (X ''ana'' ''s1'')"
    by (simp add: in_domain_def continuous_var_def)
  with le show False by simp
qed

text \<open>
  Claim C1 fails on the code. ana, the only BE person, has capacity 0 and an hour
  is reserved for a bug, so the problem has no feasible assignment and the solver
  reports Infeasible. With every variable at 0 the two first views are written
  empty, then line 188 divides by the capacity and raises \<open>ZeroDivisionError\<close>.
  Whatever values the solver leaves, the run ends in an error and the summary,
  which would hold the status, is never written.
\<close>

theorem infeasible_zero_capacity_raises:
  "construct infeasible_input = Inr (projr (construct infeasible_input)) \<and>
   (\<forall>v. \<not> feasible v (problem (projr (construct infeasible_input)))) \<and>
   LpStatus (- 1) = Some ''Infeasible'' \<and>
   run (assign_values (- 1) (\<lambda>w. 0)) infeasible_input =
     (no_outputs \<lparr> selected_stories_csv := Some [], assignments_csv := Some [] \<rparr>,
      Some ZeroDivisionError) \<and>
   (\<forall>solve. snd (run solve infeasible_input) \<noteq> None \<and>
      person_utilization_csv (fst (run solve infeasible_input)) = None \<and>
      summary_txt (fst (run solve infeasible_input)) = None)"
proof -
  have 1: "LpStatus (- 1) = Some ''Infeasible''" by code_simp
  have 2: "run (assign_values (- 1) (\<lambda>w. 0)) infeasible_input =
     (no_outputs \<lparr> selected_stories_csv := Some [], assignments_csv := Some [] \<rparr>,
      Some ZeroDivisionError)"
    by code_simp
  have i: "''ana'' \<in> set (I infeasible_input)" by (simp add: I_def infeasible_input_def)
  have c: "cap_i infeasible_input ''ana'' = Some 0"
    by (simp add: cap_i_def dict_of_def infeasible_input_def)
  have 3: "snd (run solve infeasible_input) \<noteq> None \<and>
      person_utilization_csv (fst (run solve infeasible_input)) = None \<and>
      summary_txt (fst (run solve infeasible_input)) = None" for solve
  proof -
    have "run solve infeasible_input =
        write_outputs infeasible_input (projr (construct infeasible_input))
          (solve (problem (projr (construct infeasible_input))))"
      by (subst run_def, subst infeasible_construct) simp
    with zero_capacity_never_completes[OF i c] show ?thesis by simp
  qed
  from infeasible_construct infeasible_problem 1 2 3 show ?thesis by blast
qed

text \<open>
  A second place where the views are written and the run still raises: with every
  story value 0 and no penalty the objective has no term, its value after the solve
  is \<open>None\<close>, and line 197 raises \<open>TypeError\<close> when it formats it, after
  the status line of the summary.
\<close>

lemma constant_objective_example:
  "run (assign_values 1 (\<lambda>w. 0))
     (example_input \<lparr> story_rows := map (\<lambda>s. s \<lparr> s_value := 0 \<rparr>) (story_rows example_input),
                      CFG := (CFG example_input) \<lparr> cfg_lambda_people_penalty := 0 \<rparr> \<rparr>) =
     (\<lparr> selected_stories_csv = Some [], assignments_csv = Some [],
        person_utilization_csv =
          Some [(''ana'', ''BE'', 0, 10, 0, 0, 0), (''bob'', ''FE'', 0, 10, 0, 0, 0),
                (''cai'', ''QA'', 0, 10, 0, 0, 0)],
        summary_txt = Some [Status ''Optimal''] \<rparr>,
      Some TypeError)"
  by code_simp

subsection \<open>Utilization of a person without capacity\<close>

text \<open>
  Claim C2 fails on the code. ana has capacity 0; the solver reports Optimal with
  every variable at 0, which is feasible. Line 188 divides the used hours by the
  capacity and raises \<open>ZeroDivisionError\<close>: the selection and assignment views
  are written (empty), the utilization view and the summary are not.
\<close>

theorem zero_capacity_raises:
  "cap_i zero_capacity_input ''ana'' = Some 0 \<and>
   \<not> isl (construct zero_capacity_input) \<and>
   feasible (\<lambda>w. 0) (problem (projr (construct zero_capacity_input))) \<and>
   run (assign_values 1 (\<lambda>w. 0)) zero_capacity_input =
     (no_outputs \<lparr> selected_stories_csv := Some [], assignments_csv := Some [] \<rparr>,
      Some ZeroDivisionError)"
  by code_simp

subsection \<open>The configured release roles\<close>

lemma release_roles_config:
  "hours_per_point (with_release_roles rr inp) = hours_per_point inp"
  "bugs_per_sprint (with_release_roles rr inp) = bugs_per_sprint inp"
  "max_points_per_dev (with_release_roles rr inp) = max_points_per_dev inp"
  "lambda_people (with_release_roles rr inp) = lambda_people inp"
  "theta_release_hours (with_release_roles rr inp) = theta_release_hours inp"
  "qa_cov_factor (with_release_roles rr inp) = qa_cov_factor inp"
  "wip_factor_QA (with_release_roles rr inp) = wip_factor_QA inp"
  "forbid_points (with_release_roles rr inp) = forbid_points inp"
  "people_rows (with_release_roles rr inp) = people_rows inp"
  "story_rows (with_release_roles rr inp) = story_rows inp"
  "role_rows (with_release_roles rr inp) = role_rows inp"
  by (simp_all add: with_release_roles_def hours_per_point_def bugs_per_sprint_def
      max_points_per_dev_def lambda_people_def theta_release_hours_def qa_cov_factor_def
      wip_factor_QA_def forbid_points_def)

lemma release_roles_data:
  "I (with_release_roles rr inp) = I inp"
  "role_of (with_release_roles rr inp) = role_of inp"
  "cap_i (with_release_roles rr inp) = cap_i inp"
  "eligible (with_release_roles rr inp) = eligible inp"
  "R (with_release_roles rr inp) = R inp"
  "role_share (with_release_roles rr inp) = role_share inp"
  "mtg_per_story (with_release_roles rr inp) = mtg_per_story inp"
  "bug_hours_per_bug (with_release_roles rr inp) = bug_hours_per_bug inp"
  "deps_of_row (with_release_roles rr inp) = deps_of_row inp"
  by (simp_all add: fun_eq_iff release_roles_config I_def role_of_def cap_i_def eligible_def R_def
      role_share_def mtg_per_story_def bug_hours_per_bug_def deps_of_row_def)

lemma release_roles_stories:
  "S (with_release_roles rr inp) = S inp"
  "points (with_release_roles rr inp) = points inp"
  "value_of (with_release_roles rr inp) = value_of inp"
  "deps (with_release_roles rr inp) = deps inp"
  by (simp_all add: release_roles_config release_roles_data S_def points_def value_of_def deps_def)

lemmas release_roles_loaded = release_roles_config release_roles_data release_roles_stories

lemma release_roles_derive: "derive (with_release_roles rr inp) = derive inp"
proof -
  have h1: "I_by_role_append (with_release_roles rr inp) = I_by_role_append inp"
    by (simp add: fun_eq_iff I_by_role_append_def release_roles_loaded
        cong: if_cong option.case_cong sum.case_cong)
  have 1: "I_by_role_loop (with_release_roles rr inp) = I_by_role_loop inp"
    by (simp add: I_by_role_loop_def h1 release_roles_loaded)
  have 2: "hrs_tot_dict (with_release_roles rr inp) = hrs_tot_dict inp"
    by (simp add: hrs_tot_dict_def release_roles_loaded)
  have h2: "req_of_role (with_release_roles rr inp) = req_of_role inp"
    by (simp add: fun_eq_iff req_of_role_def release_roles_loaded
        cong: if_cong option.case_cong sum.case_cong)
  have 3: "req_init (with_release_roles rr inp) = req_init inp"
    by (simp add: fun_eq_iff h2 req_init_def
        cong: if_cong option.case_cong sum.case_cong)
  have h3: "add_meeting_load (with_release_roles rr inp) = add_meeting_load inp"
    by (simp add: fun_eq_iff add_meeting_load_def release_roles_loaded
        cong: if_cong option.case_cong sum.case_cong)
  have 4: "meeting_loop (with_release_roles rr inp) = meeting_loop inp"
    by (simp add: fun_eq_iff h3 meeting_loop_def release_roles_loaded
        cong: if_cong option.case_cong sum.case_cong)
  have h4: "role_cap_step (with_release_roles rr inp) = role_cap_step inp"
    by (simp add: fun_eq_iff role_cap_step_def release_roles_loaded
        cong: if_cong option.case_cong sum.case_cong)
  have 5: "role_cap_loop (with_release_roles rr inp) = role_cap_loop inp"
    by (simp add: fun_eq_iff h4 role_cap_loop_def release_roles_loaded
        cong: if_cong option.case_cong sum.case_cong)
  have 6: "role_bug_reserve_dict (with_release_roles rr inp) = role_bug_reserve_dict inp"
    by (simp add: role_bug_reserve_dict_def release_roles_loaded)
  have 7: "role_cap_eff_dict (with_release_roles rr inp) = role_cap_eff_dict inp"
    by (simp add: fun_eq_iff role_cap_eff_dict_def release_roles_loaded
        cong: if_cong option.case_cong sum.case_cong)
  show ?thesis by (simp add: derive_def 1 2 3 4 5 6 7)
qed

lemma release_roles_dicts:
  "x_dict (with_release_roles rr inp) = x_dict inp"
  "z_dict (with_release_roles rr inp) = z_dict inp"
  "y_dict (with_release_roles rr inp) = y_dict inp"
  "owner_dict (with_release_roles rr inp) = owner_dict inp"
  "rel_dict (with_release_roles rr inp) = rel_dict inp"
  by (simp_all add: x_dict_def z_dict_def y_dict_def owner_dict_def rel_dict_def release_roles_loaded)

lemma release_roles_build: "build (with_release_roles rr inp) = build inp"
proof -
  have 1: "objective_expr (with_release_roles rr inp) = objective_expr inp"
    by (simp add: objective_expr_def release_roles_loaded release_roles_dicts)
  have 2: "Cap_constraint (with_release_roles rr inp) = Cap_constraint inp"
    by (simp add: fun_eq_iff Cap_constraint_def release_roles_loaded release_roles_dicts
        cong: if_cong option.case_cong sum.case_cong)
  have 3: "Req_constraint (with_release_roles rr inp) = Req_constraint inp"
    by (simp add: fun_eq_iff Req_constraint_def release_roles_loaded release_roles_dicts
        cong: if_cong option.case_cong sum.case_cong)
  have 4: "RoleCap_constraint (with_release_roles rr inp) = RoleCap_constraint inp"
    by (simp add: fun_eq_iff RoleCap_constraint_def release_roles_loaded release_roles_dicts
        cong: if_cong option.case_cong sum.case_cong)
  have 5: "devs_list (with_release_roles rr inp) = devs_list inp"
    by (simp add: devs_list_def release_roles_loaded)
  have h5: "OwnerHours_constraint (with_release_roles rr inp) = OwnerHours_constraint inp"
    by (simp add: fun_eq_iff OwnerHours_constraint_def release_roles_loaded release_roles_dicts
        cong: if_cong option.case_cong sum.case_cong)
  have 6: "Owner_constraints (with_release_roles rr inp) = Owner_constraints inp"
    by (simp add: fun_eq_iff h5 Owner_constraints_def release_roles_loaded release_roles_dicts
        cong: if_cong option.case_cong sum.case_cong)
  have 7: "PointsCap_constraint (with_release_roles rr inp) = PointsCap_constraint inp"
    by (simp add: fun_eq_iff PointsCap_constraint_def release_roles_loaded release_roles_dicts
        cong: if_cong option.case_cong sum.case_cong)
  have 8: "Rel_constraints (with_release_roles rr inp) = Rel_constraints inp"
    by (simp add: fun_eq_iff Rel_constraints_def release_roles_loaded release_roles_dicts
        cong: if_cong option.case_cong sum.case_cong)
  have 9: "Dep_constraint (with_release_roles rr inp) = Dep_constraint inp"
    by (simp add: fun_eq_iff Dep_constraint_def release_roles_loaded release_roles_dicts
        cong: if_cong option.case_cong sum.case_cong)
  show ?thesis
    by (simp add: fun_eq_iff build_def 1 2 3 4 5 6 7 8 9 release_roles_loaded release_roles_dicts
        cong: if_cong option.case_cong sum.case_cong)
qed

lemma release_roles_write_outputs:
  "write_outputs (with_release_roles rr inp) = write_outputs inp"
proof -
  have h6: "sel_of_story (with_release_roles rr inp) = sel_of_story inp"
    by (simp add: fun_eq_iff sel_of_story_def release_roles_loaded
        cong: if_cong option.case_cong sum.case_cong)
  have 1: "sel (with_release_roles rr inp) = sel inp"
    by (simp add: fun_eq_iff h6 sel_def release_roles_loaded
        cong: if_cong option.case_cong sum.case_cong)
  have h7: "assign_of_pair (with_release_roles rr inp) = assign_of_pair inp"
    by (simp add: fun_eq_iff assign_of_pair_def release_roles_loaded
        cong: if_cong option.case_cong sum.case_cong)
  have 2: "assign_rows (with_release_roles rr inp) = assign_rows inp"
    by (simp add: fun_eq_iff h7 assign_rows_def release_roles_loaded
        cong: if_cong option.case_cong sum.case_cong)
  have h8: "util_of_person (with_release_roles rr inp) = util_of_person inp"
    by (simp add: fun_eq_iff util_of_person_def release_roles_loaded
        cong: if_cong option.case_cong sum.case_cong)
  have 3: "util (with_release_roles rr inp) = util inp"
    by (simp add: fun_eq_iff h8 util_def release_roles_loaded
        cong: if_cong option.case_cong sum.case_cong)
  have 4: "val_total (with_release_roles rr inp) = val_total inp"
    by (simp add: fun_eq_iff val_total_def release_roles_loaded
        cong: if_cong option.case_cong sum.case_cong)
  have 5: "active_people (with_release_roles rr inp) = active_people inp"
    by (simp add: fun_eq_iff active_people_def release_roles_loaded
        cong: if_cong option.case_cong sum.case_cong)
  have 6: "summary (with_release_roles rr inp) = summary inp"
    by (simp add: fun_eq_iff summary_def 4 5 release_roles_loaded
        cong: if_cong option.case_cong sum.case_cong)
  show ?thesis by (simp add: fun_eq_iff write_outputs_def 1 2 3 6
        cong: if_cong option.case_cong sum.case_cong)
qed

text \<open>
  Claim C10. Two inputs that differ only in \<open>require_release_for_roles\<close> give the
  same constructed problem (variables, objective, constraints and developers) and,
  for the same answer of the solver, the same output files; the developers are the
  people of role BE or FE whatever that setting is.
\<close>

theorem release_roles_not_used:
  "require_release_roles (with_release_roles rr inp) = set rr \<and>
   construct (with_release_roles rr inp) = construct inp \<and>
   write_outputs (with_release_roles rr inp) b sol = write_outputs inp b sol \<and>
   run solve (with_release_roles rr inp) = run solve inp \<and>
   devs_list (with_release_roles rr inp) =
     Inr (filter (\<lambda>i. role_of inp i = Some ''BE'' \<or> role_of inp i = Some ''FE'') (I inp))"
proof -
  have 1: "require_release_roles (with_release_roles rr inp) = set rr"
    by (simp add: require_release_roles_def with_release_roles_def)
  have 2: "construct (with_release_roles rr inp) = construct inp"
    by (simp add: construct_def release_roles_derive release_roles_build)
  have 3: "write_outputs (with_release_roles rr inp) b sol = write_outputs inp b sol"
    by (simp add: release_roles_write_outputs)
  have 4: "run solve (with_release_roles rr inp) = run solve inp"
    by (simp add: run_def 2 release_roles_write_outputs cong: sum.case_cong)
  have 5: "devs_list (with_release_roles rr inp) =
     Inr (filter (\<lambda>i. role_of inp i = Some ''BE'' \<or> role_of inp i = Some ''FE'') (I inp))"
    by (simp add: devs_list_eq release_roles_loaded)
  from 1 2 3 4 5 show ?thesis by blast
qed

theorem release_roles_not_used_witness:
  "require_release_roles example_input = {''BE'', ''FE''} \<and>
   require_release_roles (with_release_roles [''QA''] example_input) = {''QA''} \<and>
   construct (with_release_roles [''QA''] example_input) = construct example_input \<and>
   run (assign_values 1 example_values) (with_release_roles [''QA''] example_input) =
     run (assign_values 1 example_values) example_input \<and>
   devs (projr (construct (with_release_roles [''QA''] example_input))) = [''ana'', ''bob'']"
proof -
  have a: "require_release_roles example_input = {''BE'', ''FE''}"
    by (simp add: require_release_roles_def example_input_def)
  have d: "devs (projr (construct example_input)) = [''ana'', ''bob'']" by code_simp
  from release_roles_not_used[of "[''QA'']" example_input _ _ "assign_values 1 example_values"] a d
  show ?thesis by simp
qed

subsection \<open>When the model construction returns\<close>

lemma comprehension_returns:
  "(\<And>k. k \<in> set ks \<Longrightarrow> \<exists>y. f k = Inr y) \<Longrightarrow> \<exists>ys. comprehension f ks = Inr ys"
proof (induction ks)
  case Nil
  then show ?case by simp
next
  case (Cons k ks)
  from Cons.prems[of k] obtain y where y: "f k = Inr y" by auto
  from Cons.IH Cons.prems obtain ys where "comprehension f ks = Inr ys" by auto
  with y show ?case by simp
qed

lemma value_of_S: "s \<in> set (S inp) \<Longrightarrow> \<exists>v. value_of inp s = Some v"
proof -
  assume "s \<in> set (S inp)"
  then have "s \<in> dom (value_of inp)"
    by (simp add: S_def value_of_def dict_of_dom image_image)
  then show ?thesis by auto
qed

lemma derive_req_dom:
  assumes "derive inp = Inr d" and "s \<in> set (S inp)" and "r \<in> set fixed_roles"
  shows "\<exists>q. req d (s, r) = Some q"
proof -
  from assms(1) obtain ht rq0 where
    ht: "hrs_tot_dict inp = Inr ht" and rq0: "req_init inp ht = Inr rq0" and
    ml: "meeting_loop inp rq0 = Inr (req d)"
    unfolding derive_def raise_bind_Inr_iff by force
  from ht have ht': "ht = (\<lambda>s. if s \<in> set (S inp) then Some (of_int (the (points inp s)) * hours_per_point inp) else None)"
    by (simp add: hrs_tot_dict_eq)
  from rq0 have rq0': "rq0 = (\<lambda>sr. if fst sr \<in> set (S inp) \<and> snd sr \<in> set fixed_roles
        then Some (req_base inp (fst sr) (snd sr)) else None)"
    by (simp add: req_init_eq[OF ht'])
  have sub: "set (List.product (S inp) [''QA'', ''TL'']) \<subseteq> dom rq0"
    by (auto simp: rq0' fixed_roles_def)
  from for_loop_add_meeting_load[OF sub, of inp] ml have "dom (req d) = dom rq0"
    by (auto simp: meeting_loop_def)
  moreover have "(s, r) \<in> dom rq0" using assms(2,3) by (simp add: rq0' dom_def)
  ultimately show ?thesis by auto
qed

lemma derive_facts:
  assumes "derive inp = Inr d"
  shows "role_cap_eff d = role_cap_eff_dict inp (role_cap d) (role_bug_reserve_dict inp)"
    and "dom (I_by_role d) = {r. \<exists>i \<in> set (I inp). role_of inp i = Some r} \<union> set (R inp)"
    and "\<forall>r. members (I_by_role d) r = in_role inp r"
  using derive_total[of inp] assms by auto

lemma role_cap_eff_dom:
  assumes "derive inp = Inr d" and "r \<in> set (R inp)"
  shows "\<exists>c. role_cap_eff d r = Some c"
  using assms(2) unfolding derive_facts(1)[OF assms(1)] role_cap_eff_dict_def
  by (simp add: Let_def dict_of_fun)

lemma var_at_returns: "d k = Some lv \<Longrightarrow> \<exists>e. var_at d k = Inr e"
  by (simp add: var_at_Inr_iff)

lemma x_at_returns: "i \<in> set (I inp) \<Longrightarrow> s \<in> set (S inp) \<Longrightarrow> \<exists>e. var_at (x_dict inp) (i, s) = Inr e"
  by (simp add: var_at_Inr_iff x_dict_eq)

lemma owner_at_returns: "i \<in> set (I inp) \<Longrightarrow> s \<in> set (S inp) \<Longrightarrow> \<exists>e. var_at (owner_dict inp) (i, s) = Inr e"
  by (simp add: var_at_Inr_iff owner_dict_eq)

lemma z_at_returns: "s \<in> set (S inp) \<Longrightarrow> \<exists>e. var_at (z_dict inp) s = Inr e"
  by (simp add: var_at_Inr_iff z_dict_eq)

lemma y_at_returns: "i \<in> set (I inp) \<Longrightarrow> \<exists>e. var_at (y_dict inp) i = Inr e"
  by (simp add: var_at_Inr_iff y_dict_eq)

lemma rel_at_returns: "i \<in> set (I inp) \<Longrightarrow> \<exists>e. var_at (rel_dict inp) i = Inr e"
  by (simp add: var_at_Inr_iff rel_dict_eq)

lemma objective_returns: "\<exists>obj. objective_expr inp = Inr obj"
proof -
  have "\<exists>vs. comprehension
        (\<lambda>s. raise_bind (getitem (value_of inp) s) (\<lambda>v.
              raise_bind (var_at (z_dict inp) s) (\<lambda>zs. Inr (expr_scale v zs))))
        (S inp) = Inr vs"
  proof (rule comprehension_returns)
    fix k assume k: "k \<in> set (S inp)"
    from value_of_S[OF k] z_at_returns[OF k]
    show "\<exists>y. raise_bind (getitem (value_of inp) k) (\<lambda>v.
              raise_bind (var_at (z_dict inp) k) (\<lambda>zs. Inr (expr_scale v zs))) = Inr y"
      by (auto simp: getitem_def)
  qed
  moreover have "\<exists>ys. comprehension (var_at (y_dict inp)) (I inp) = Inr ys"
    by (rule comprehension_returns) (rule y_at_returns)
  ultimately show ?thesis by (auto simp: objective_expr_def)
qed

lemma Cap_returns: "i \<in> set (I inp) \<Longrightarrow> \<exists>nc. Cap_constraint inp i = Inr nc"
proof -
  assume i: "i \<in> set (I inp)"
  have "\<exists>xs. comprehension (\<lambda>s. var_at (x_dict inp) (i, s)) (S inp) = Inr xs"
    by (rule comprehension_returns) (rule x_at_returns[OF i])
  with cap_i_I[OF i] y_at_returns[OF i] show ?thesis
    by (auto simp: Cap_constraint_def getitem_def)
qed

lemma Req_returns:
  assumes d: "derive inp = Inr d" and sr: "sr \<in> set (List.product (S inp) fixed_roles)"
  shows "\<exists>cs. Req_constraint inp d sr = Inr cs"
proof (cases "I_by_role d (snd sr)")
  case None
  then show ?thesis by (simp add: Req_constraint_def)
next
  case (Some l)
  with derive_facts(3)[OF d] have l: "l = in_role inp (snd sr)"
    by (auto simp: members_def dest: spec[of _ "snd sr"])
  from sr have s: "fst sr \<in> set (S inp)" and r: "snd sr \<in> set fixed_roles" by auto
  have "\<exists>xs. comprehension (\<lambda>i. var_at (x_dict inp) (i, fst sr)) l = Inr xs"
    by (rule comprehension_returns) (simp add: l in_role_def x_at_returns s)
  moreover from derive_req_dom[OF d s r] have "\<exists>q. getitem (req d) sr = Inr q"
    by (auto simp: getitem_def)
  ultimately show ?thesis using z_at_returns[OF s] Some
    by (auto simp: Req_constraint_def)
qed

lemma RoleCap_returns:
  assumes d: "derive inp = Inr d"
    and roles: "\<forall>i \<in> set (I inp). \<forall>r. role_of inp i = Some r \<longrightarrow> r \<in> set (R inp)"
  shows "\<exists>cs. RoleCap_constraint inp d r = Inr cs"
proof (cases "I_by_role d r")
  case None
  then show ?thesis by (simp add: RoleCap_constraint_def)
next
  case (Some l)
  with derive_facts(3)[OF d] have l: "l = in_role inp r"
    by (auto simp: members_def dest: spec[of _ r])
  from Some have "r \<in> dom (I_by_role d)" by auto
  with derive_facts(2)[OF d] roles have "r \<in> set (R inp)" by auto
  from role_cap_eff_dom[OF d this] have c: "\<exists>c. getitem (role_cap_eff d) r = Inr c"
    by (auto simp: getitem_def)
  have "\<exists>xs. comprehension (\<lambda>si. var_at (x_dict inp) (snd si, fst si)) (List.product (S inp) l) = Inr xs"
    by (rule comprehension_returns) (auto simp: l in_role_def intro: x_at_returns)
  with c Some show ?thesis by (auto simp: RoleCap_constraint_def)
qed

lemma Owner_returns:
  assumes dv: "set dv \<subseteq> set (I inp)" and s: "s \<in> set (S inp)"
  shows "\<exists>cs. Owner_constraints inp dv s = Inr cs"
proof -
  have "\<exists>os. comprehension (\<lambda>i. var_at (owner_dict inp) (i, s)) dv = Inr os"
    by (rule comprehension_returns) (use dv s in \<open>auto intro: owner_at_returns\<close>)
  moreover have "\<exists>hs. comprehension (OwnerHours_constraint inp s) dv = Inr hs"
  proof (rule comprehension_returns)
    fix k assume "k \<in> set dv"
    with dv have k: "k \<in> set (I inp)" by auto
    from x_at_returns[OF k s] owner_at_returns[OF k s]
    show "\<exists>y. OwnerHours_constraint inp s k = Inr y"
      by (auto simp: OwnerHours_constraint_def)
  qed
  ultimately show ?thesis using z_at_returns[OF s] by (auto simp: Owner_constraints_def)
qed

lemma PointsCap_returns:
  assumes i: "i \<in> set (I inp)"
  shows "\<exists>nc. PointsCap_constraint inp i = Inr nc"
proof -
  have "\<exists>ps. comprehension
        (\<lambda>s. raise_bind (getitem (points inp) s) (\<lambda>p.
              raise_bind (var_at (owner_dict inp) (i, s)) (\<lambda>ov. Inr (expr_scale (of_int p) ov))))
        (S inp) = Inr ps"
  proof (rule comprehension_returns)
    fix k assume k: "k \<in> set (S inp)"
    from points_S[OF k] owner_at_returns[OF i k]
    show "\<exists>y. raise_bind (getitem (points inp) k) (\<lambda>p.
              raise_bind (var_at (owner_dict inp) (i, k)) (\<lambda>ov. Inr (expr_scale (of_int p) ov))) = Inr y"
      by (auto simp: getitem_def)
  qed
  then show ?thesis by (auto simp: PointsCap_constraint_def)
qed

lemma Rel_returns:
  assumes i: "i \<in> set (I inp)"
  shows "\<exists>cs. Rel_constraints inp i = Inr cs"
proof -
  have "\<exists>os. comprehension (\<lambda>s. var_at (owner_dict inp) (i, s)) (S inp) = Inr os"
    by (rule comprehension_returns) (rule owner_at_returns[OF i])
  with rel_at_returns[OF i] y_at_returns[OF i] show ?thesis
    by (auto simp: Rel_constraints_def)
qed

lemma Dep_returns:
  assumes "sp \<in> set (deps inp)"
  shows "\<exists>cs. Dep_constraint inp sp = Inr cs"
proof (cases "snd sp \<in> set (S inp)")
  case False
  then show ?thesis by (simp add: Dep_constraint_def)
next
  case True
  from assms have "(fst sp, snd sp) \<in> set (deps inp)" by simp
  then have "fst sp \<in> set (S inp)" by (rule deps_fst_S)
  from z_at_returns[OF this] z_at_returns[OF True] True show ?thesis
    by (auto simp: Dep_constraint_def)
qed

text \<open>
  The construction raises only at line 122, when a person has one of the five
  fixed roles and the role records lack it. When every person's role is in the
  role records, it returns.
\<close>

lemma construct_returns:
  assumes roles: "\<forall>i \<in> set (I inp). \<forall>r. role_of inp i = Some r \<longrightarrow> r \<in> set (R inp)"
  shows "\<exists>b. construct inp = Inr b"
proof -
  from derive_total[of inp] obtain d where d: "derive inp = Inr d" by blast
  let ?dv = "filter (\<lambda>i. role_of inp i = Some ''BE'' \<or> role_of inp i = Some ''FE'') (I inp)"
  have dv: "set ?dv \<subseteq> set (I inp)" by auto
  obtain obj where 1: "objective_expr inp = Inr obj" using objective_returns by blast
  obtain caps where 2: "comprehension (Cap_constraint inp) (I inp) = Inr caps"
    using comprehension_returns[of "I inp" "Cap_constraint inp"] Cap_returns by blast
  obtain reqs where 3: "comprehension (Req_constraint inp d) (List.product (S inp) fixed_roles) = Inr reqs"
    using comprehension_returns[of "List.product (S inp) fixed_roles" "Req_constraint inp d"]
      Req_returns[OF d] by blast
  obtain rcs where 4: "comprehension (RoleCap_constraint inp d) fixed_roles = Inr rcs"
    using comprehension_returns[of fixed_roles "RoleCap_constraint inp d"]
      RoleCap_returns[OF d roles] by blast
  obtain ows where 5: "comprehension (Owner_constraints inp ?dv) (S inp) = Inr ows"
    using comprehension_returns[of "S inp" "Owner_constraints inp ?dv"] Owner_returns[OF dv] by blast
  obtain pcs where 6: "comprehension (PointsCap_constraint inp) ?dv = Inr pcs"
    using comprehension_returns[of ?dv "PointsCap_constraint inp"] PointsCap_returns dv by blast
  obtain rls where 7: "comprehension (Rel_constraints inp) ?dv = Inr rls"
    using comprehension_returns[of ?dv "Rel_constraints inp"] Rel_returns dv by blast
  obtain dps where 8: "comprehension (Dep_constraint inp) (deps inp) = Inr dps"
    using comprehension_returns[of "deps inp" "Dep_constraint inp"] Dep_returns by blast
  show ?thesis
    by (simp add: construct_def d build_def 1 2 3 4 devs_list_eq 5 6 7 8)
qed

text \<open>Without the role record of BE, line 122 raises for the developer ana.\<close>

lemma construct_raises_example:
  "isl (construct (example_input \<lparr> role_rows := tl (role_rows example_input) \<rparr>)) \<and>
   projl (construct (example_input \<lparr> role_rows := tl (role_rows example_input) \<rparr>)) = KeyError"
  by code_simp

end
